theory Spec2Isabelle
  imports Main
begin

chapter \<open>Code Guardian: session store, providers, chat controller and fix orchestrator\<close>

text \<open>
  The sections up to the verification follow the sources: each definition is the
  function of the same name, with the state it touches passed in and returned, and
  with what it reads from the editor, the clock, the network and \<open>JSON.parse\<close> taken
  as parameters. Errors thrown are values (\<open>Inl\<close> of the message).
\<close>

section \<open>Strings of the host language\<close>

text \<open>
  A source string is a sequence of UTF-16 code units. The model uses \<open>string\<close>, so it
  covers the code units below 256. Within that range \<open>String.prototype.trim\<close> removes
  TAB, LF, VT, FF, CR, SPACE and NBSP from both ends.
\<close>

definition isJsSpace :: "char \<Rightarrow> bool" where
  "isJsSpace c \<longleftrightarrow>
     c = CHR 0x09 \<or> c = CHR 0x0A \<or> c = CHR 0x0B \<or> c = CHR 0x0C \<or> c = CHR 0x0D
     \<or> c = CHR 0x20 \<or> c = CHR 0xA0"

definition trim :: "string \<Rightarrow> string" where
  "trim s = rev (dropWhile isJsSpace (rev (dropWhile isJsSpace s)))"

section \<open>Session store: data model (chat/types.ts)\<close>

datatype ChatSessionType = Qa | Fix

datatype ChatMessageRole = System | User | Assistant | Tool | Agent

datatype ChatSessionStatus = Idle | Running | Completed | Error

text \<open>
  A metadata object is a list of key/value pairs; a value is a string or \<open>undefined\<close>
  (\<open>None\<close>). An optional field of an interface is an \<open>option\<close>.
\<close>

type_synonym Metadata = "(string \<times> string option) list"

record StoredChatMessage =
  m_id :: string
  m_role :: ChatMessageRole
  m_content :: string
  m_createdAt :: nat
  m_pending :: "bool option"
  m_metadata :: "Metadata option"

record ChatSession =
  s_id :: string
  s_type :: ChatSessionType
  s_title :: string
  s_createdAt :: nat
  s_updatedAt :: nat
  allowUserInput :: bool
  s_status :: ChatSessionStatus
  s_messages :: "StoredChatMessage list"
  s_metadata :: "Metadata option"

record ResolvedChatState =
  r_sessions :: "ChatSession list"
  r_activeSessionId :: "string option"

section \<open>Session store: operations (chat/sessionManager.ts)\<close>

text \<open>
  The environment the store reads: the clock behind \<open>Date.now()\<close>, the generator behind
  \<open>randomId()\<close> and the locale rendering of a timestamp. The \<open>n\<close>-th read of the
  clock returns \<open>dateNow n\<close>; the store counts its reads in \<open>ticks\<close> and \<open>draws\<close>.
\<close>

record Env =
  dateNow :: "nat \<Rightarrow> nat"
  randomId :: "nat \<Rightarrow> string"
  toLocaleString :: "nat \<Rightarrow> string"

text \<open>
  The manager object: its two private fields, the value last written to the memento
  under the storage key by \<open>persist\<close>, and the snapshots delivered to the observers by
  \<open>emitState\<close>, oldest first.
\<close>

record ChatSessionManager =
  sessions :: "ChatSession list"
  activeSessionId :: "string option"
  memento :: "ChatSession list"
  fired :: "ResolvedChatState list"
  ticks :: nat
  draws :: nat

text \<open>The argument of \<open>addMessage\<close>: identity and timestamp are optional.\<close>

record NewMessage =
  n_id :: "string option"
  n_createdAt :: "nat option"
  n_role :: ChatMessageRole
  n_content :: string
  n_pending :: "bool option"
  n_metadata :: "Metadata option"

text \<open>
  The argument of \<open>updateMessage\<close>, a partial pick of content, pending and metadata:
  \<open>None\<close> is an absent key, which the object spread leaves as it was.
\<close>

record MessageUpdates =
  u_content :: "string option"
  u_pending :: "bool option"
  u_metadata :: "Metadata option"

fun findIndex :: "('a \<Rightarrow> bool) \<Rightarrow> 'a list \<Rightarrow> nat option" where
  "findIndex p [] = None"
| "findIndex p (x # xs) =
     (if p x then Some 0 else map_option Suc (findIndex p xs))"

definition getState :: "ChatSessionManager \<Rightarrow> ResolvedChatState" where
  "getState m = \<lparr>r_sessions = sessions m, r_activeSessionId = activeSessionId m\<rparr>"

definition getSession :: "ChatSessionManager \<Rightarrow> string \<Rightarrow> ChatSession option" where
  "getSession m sessionId = find (\<lambda>s. s_id s = sessionId) (sessions m)"

definition getActiveSession :: "ChatSessionManager \<Rightarrow> ChatSession option" where
  "getActiveSession m = find (\<lambda>s. Some (s_id s) = activeSessionId m) (sessions m)"

definition persist :: "ChatSessionManager \<Rightarrow> ChatSessionManager" where
  "persist m = m\<lparr>memento := sessions m\<rparr>"

definition emitState :: "ChatSessionManager \<Rightarrow> ChatSessionManager" where
  "emitState m = m\<lparr>fired := fired m @ [getState m]\<rparr>"

text \<open>\<open>Date.now()\<close> and \<open>randomId()\<close>: the value read and the manager that has read it.\<close>

definition now :: "Env \<Rightarrow> ChatSessionManager \<Rightarrow> nat \<times> ChatSessionManager" where
  "now E m = (dateNow E (ticks m), m\<lparr>ticks := Suc (ticks m)\<rparr>)"

definition freshId :: "Env \<Rightarrow> ChatSessionManager \<Rightarrow> string \<times> ChatSessionManager" where
  "freshId E m = (randomId E (draws m), m\<lparr>draws := Suc (draws m)\<rparr>)"

definition defaultTitleForType :: "Env \<Rightarrow> ChatSessionType \<Rightarrow> nat \<Rightarrow> string" where
  "defaultTitleForType E ty timestamp =
     (if ty = Qa then ''Security Q&A ('' @ toLocaleString E timestamp @ '')''
      else ''AI Fix ('' @ toLocaleString E timestamp @ '')'')"

text \<open>
  \<open>setActiveSession\<close>: an id that is a non-empty string and names no session is
  refused; \<open>undefined\<close> and the empty string are falsy and pass the guard.
\<close>

definition setActiveSession :: "ChatSessionManager \<Rightarrow> string option \<Rightarrow> ChatSessionManager" where
  "setActiveSession m sessionId =
     (if (sessionId \<noteq> None \<and> sessionId \<noteq> Some [])
         \<and> \<not> list_ex (\<lambda>s. Some (s_id s) = sessionId) (sessions m)
      then m
      else emitState (persist (m\<lparr>activeSessionId := sessionId\<rparr>)))"

definition createSession ::
  "Env \<Rightarrow> ChatSessionManager \<Rightarrow> ChatSessionType \<Rightarrow> string option \<Rightarrow> Metadata option
     \<Rightarrow> ChatSessionManager \<times> ChatSession" where
  "createSession E m ty title metadata =
     (let (timestamp, m1) = now E m;
          (ident, m2) = freshId E m1;
          newSession = \<lparr>s_id = ident, s_type = ty,
             s_title = (case title of Some t \<Rightarrow> t | None \<Rightarrow> defaultTitleForType E ty timestamp),
             s_createdAt = timestamp, s_updatedAt = timestamp,
             allowUserInput = (ty = Qa), s_status = Idle, s_messages = [],
             s_metadata = metadata\<rparr>;
          m3 = m2\<lparr>sessions := newSession # sessions m2, activeSessionId := Some ident\<rparr>
      in (emitState (persist m3), newSession))"

text \<open>
  \<open>deleteSession\<close>: \<open>splice(index, 1)\<close> removes the first session with the id; the
  active id is then compared with the deleted one and replaced by \<open>sessions[0]?.id\<close>.
\<close>

definition deleteSession :: "ChatSessionManager \<Rightarrow> string \<Rightarrow> ChatSessionManager" where
  "deleteSession m sessionId =
     (case findIndex (\<lambda>s. s_id s = sessionId) (sessions m) of
        None \<Rightarrow> m
      | Some index \<Rightarrow>
          (let rest = take index (sessions m) @ drop (Suc index) (sessions m);
               m1 = m\<lparr>sessions := rest\<rparr>;
               m2 = (if activeSessionId m1 = Some sessionId
                     then m1\<lparr>activeSessionId :=
                            (case rest of [] \<Rightarrow> None | s # _ \<Rightarrow> Some (s_id s))\<rparr>
                     else m1)
           in emitState (persist m2)))"

definition addMessage ::
  "Env \<Rightarrow> ChatSessionManager \<Rightarrow> string \<Rightarrow> NewMessage
     \<Rightarrow> ChatSessionManager \<times> StoredChatMessage option" where
  "addMessage E m sessionId message =
     (case findIndex (\<lambda>s. s_id s = sessionId) (sessions m) of
        None \<Rightarrow> (m, None)
      | Some si \<Rightarrow>
          (let (ident, m1) = (case n_id message of Some i \<Rightarrow> (i, m) | None \<Rightarrow> freshId E m);
               (created, m2) = (case n_createdAt message of Some t \<Rightarrow> (t, m1)
                                 | None \<Rightarrow> now E m1);
               stored = \<lparr>m_id = ident, m_role = n_role message,
                  m_content = n_content message, m_createdAt = created,
                  m_pending = n_pending message, m_metadata = n_metadata message\<rparr>;
               (updated, m3) = now E m2;
               session = sessions m3 ! si;
               session' = session\<lparr>s_messages := s_messages session @ [stored],
                                  s_updatedAt := updated\<rparr>;
               m4 = m3\<lparr>sessions := (sessions m3)[si := session']\<rparr>
           in (emitState (persist m4), Some stored)))"

definition applyUpdates :: "StoredChatMessage \<Rightarrow> MessageUpdates \<Rightarrow> StoredChatMessage" where
  "applyUpdates existing updates =
     existing\<lparr>
       m_content := (case u_content updates of Some c \<Rightarrow> c | None \<Rightarrow> m_content existing),
       m_pending := (case u_pending updates of Some p \<Rightarrow> Some p | None \<Rightarrow> m_pending existing),
       m_metadata := (case u_metadata updates of Some md \<Rightarrow> Some md
                      | None \<Rightarrow> m_metadata existing)\<rparr>"

definition updateMessage ::
  "Env \<Rightarrow> ChatSessionManager \<Rightarrow> string \<Rightarrow> string \<Rightarrow> MessageUpdates
     \<Rightarrow> ChatSessionManager \<times> StoredChatMessage option" where
  "updateMessage E m sessionId messageId updates =
     (case findIndex (\<lambda>s. s_id s = sessionId) (sessions m) of
        None \<Rightarrow> (m, None)
      | Some si \<Rightarrow>
          (let session = sessions m ! si in
           case findIndex (\<lambda>msg. m_id msg = messageId) (s_messages session) of
             None \<Rightarrow> (m, None)
           | Some index \<Rightarrow>
               (let existing = s_messages session ! index;
                    updated = applyUpdates existing updates;
                    msgs = take index (s_messages session) @ [updated]
                             @ drop (Suc index) (s_messages session);
                    (t, m1) = now E m;
                    session' = session\<lparr>s_messages := msgs, s_updatedAt := t\<rparr>;
                    m2 = m1\<lparr>sessions := (sessions m1)[si := session']\<rparr>
                in (emitState (persist m2), Some updated))))"

text \<open>\<open>appendToMessage\<close> notifies the observers and does not persist.\<close>

definition appendToMessage ::
  "Env \<Rightarrow> ChatSessionManager \<Rightarrow> string \<Rightarrow> string \<Rightarrow> string
     \<Rightarrow> ChatSessionManager \<times> StoredChatMessage option" where
  "appendToMessage E m sessionId messageId fragment =
     (case findIndex (\<lambda>s. s_id s = sessionId) (sessions m) of
        None \<Rightarrow> (m, None)
      | Some si \<Rightarrow>
          (let session = sessions m ! si in
           case findIndex (\<lambda>msg. m_id msg = messageId) (s_messages session) of
             None \<Rightarrow> (m, None)
           | Some index \<Rightarrow>
               (let existing = s_messages session ! index;
                    updated = existing\<lparr>m_content := m_content existing @ fragment\<rparr>;
                    msgs = take index (s_messages session) @ [updated]
                             @ drop (Suc index) (s_messages session);
                    (t, m1) = now E m;
                    session' = session\<lparr>s_messages := msgs, s_updatedAt := t\<rparr>;
                    m2 = m1\<lparr>sessions := (sessions m1)[si := session']\<rparr>
                in (emitState m2, Some updated))))"

definition updateSessionStatus ::
  "Env \<Rightarrow> ChatSessionManager \<Rightarrow> string \<Rightarrow> ChatSessionStatus \<Rightarrow> ChatSessionManager" where
  "updateSessionStatus E m sessionId status =
     (case findIndex (\<lambda>s. s_id s = sessionId) (sessions m) of
        None \<Rightarrow> m
      | Some si \<Rightarrow>
          (let (t, m1) = now E m;
               session = sessions m1 ! si;
               session' = session\<lparr>s_status := status, s_updatedAt := t\<rparr>
           in emitState (persist (m1\<lparr>sessions := (sessions m1)[si := session']\<rparr>))))"

text \<open>
  The object spread \<open>{...a, ...b}\<close>: the keys of \<open>a\<close> keep their place and take the
  value \<open>b\<close> gives them, the new keys of \<open>b\<close> follow in order.
\<close>

fun setKey :: "string \<Rightarrow> string option \<Rightarrow> Metadata \<Rightarrow> Metadata" where
  "setKey k v [] = [(k, v)]"
| "setKey k v ((k', v') # kvs) =
     (if k' = k then (k, v) # kvs else (k', v') # setKey k v kvs)"

definition spread :: "Metadata option \<Rightarrow> Metadata \<Rightarrow> Metadata" where
  "spread a b = foldl (\<lambda>acc (k, v). setKey k v acc) (case a of None \<Rightarrow> [] | Some kvs \<Rightarrow> kvs) b"

definition updateSessionMetadata ::
  "Env \<Rightarrow> ChatSessionManager \<Rightarrow> string \<Rightarrow> Metadata \<Rightarrow> ChatSessionManager" where
  "updateSessionMetadata E m sessionId metadata =
     (case findIndex (\<lambda>s. s_id s = sessionId) (sessions m) of
        None \<Rightarrow> m
      | Some si \<Rightarrow>
          (let session = sessions m ! si;
               merged = spread (s_metadata session) metadata;
               (t, m1) = now E m;
               session' = session\<lparr>s_metadata := Some merged, s_updatedAt := t\<rparr>
           in emitState (persist (m1\<lparr>sessions := (sessions m1)[si := session']\<rparr>))))"

definition renameSession ::
  "Env \<Rightarrow> ChatSessionManager \<Rightarrow> string \<Rightarrow> string \<Rightarrow> ChatSessionManager" where
  "renameSession E m sessionId title =
     (case findIndex (\<lambda>s. s_id s = sessionId) (sessions m) of
        None \<Rightarrow> m
      | Some si \<Rightarrow>
          (let session = sessions m ! si;
               title' = (if trim title = [] then s_title session else trim title);
               (t, m1) = now E m;
               session' = session\<lparr>s_title := title', s_updatedAt := t\<rparr>
           in emitState (persist (m1\<lparr>sessions := (sessions m1)[si := session']\<rparr>))))"

definition clearAll :: "ChatSessionManager \<Rightarrow> ChatSessionManager" where
  "clearAll m = emitState (persist (m\<lparr>sessions := [], activeSessionId := None\<rparr>))"

text \<open>
  \<open>loadSessions\<close> reads the sessions a former run persisted. A stored session may
  lack \<open>allowUserInput\<close>, \<open>status\<close> or \<open>messages\<close> (\<open>None\<close>); \<open>??\<close> fills them in
  from the type, with \<open>idle\<close> and with the empty list.
\<close>

record PersistedSession =
  p_id :: string
  p_type :: ChatSessionType
  p_title :: string
  p_createdAt :: nat
  p_updatedAt :: nat
  p_allowUserInput :: "bool option"
  p_status :: "ChatSessionStatus option"
  p_messages :: "StoredChatMessage list option"
  p_metadata :: "Metadata option"

definition loadSessions :: "PersistedSession list \<Rightarrow> ChatSession list" where
  "loadSessions stored =
     map (\<lambda>session.
            \<lparr>s_id = p_id session, s_type = p_type session, s_title = p_title session,
             s_createdAt = p_createdAt session, s_updatedAt = p_updatedAt session,
             allowUserInput = (case p_allowUserInput session of
                                 Some b \<Rightarrow> b | None \<Rightarrow> p_type session = Qa),
             s_status = (case p_status session of Some st \<Rightarrow> st | None \<Rightarrow> Idle),
             s_messages = (case p_messages session of Some ms \<Rightarrow> ms | None \<Rightarrow> []),
             s_metadata = p_metadata session\<rparr>)
         stored"

section \<open>Values of the host language\<close>

text \<open>
  What \<open>JSON.parse\<close> returns. A number carries its rendering by \<open>String(n)\<close>, so zero is
  the number rendered \<open>0\<close>; nothing else about numbers is used by the code. An object
  is its list of members in key order, each key once. \<open>undefined\<close> is \<open>None\<close> of
  \<open>json option\<close>.
\<close>

datatype json =
  JNull | JBool bool | JNum string | JStr string | JArr "json list" | JObj "(string \<times> json) list"

text \<open>
  \<open>x?.name\<close> for the member names the code reads (\<open>choices\<close>, \<open>delta\<close>, \<open>content\<close>,
  \<open>decision\<close>, \<open>notes\<close>), none of which a prototype defines: only an object has them.
  \<open>x?.[0]\<close> also reads the first element of an array and the first code unit of a
  string.
\<close>

definition optProp :: "json option \<Rightarrow> string \<Rightarrow> json option" where
  "optProp x name = (case x of Some (JObj kvs) \<Rightarrow> map_of kvs name | _ \<Rightarrow> None)"

definition optIndex0 :: "json option \<Rightarrow> json option" where
  "optIndex0 x =
     (case x of
        Some (JArr (v # _)) \<Rightarrow> Some v
      | Some (JStr (c # _)) \<Rightarrow> Some (JStr [c])
      | Some (JObj kvs) \<Rightarrow> map_of kvs ''0''
      | _ \<Rightarrow> None)"

text \<open>Truthiness, as \<open>if (v)\<close> and \<open>v || d\<close> test it.\<close>

definition truthy :: "json option \<Rightarrow> bool" where
  "truthy x =
     (case x of
        None \<Rightarrow> False
      | Some JNull \<Rightarrow> False
      | Some (JBool b) \<Rightarrow> b
      | Some (JNum s) \<Rightarrow> s \<noteq> ''0''
      | Some (JStr s) \<Rightarrow> s \<noteq> []
      | Some _ \<Rightarrow> True)"

fun joinWith :: "string \<Rightarrow> string list \<Rightarrow> string" where
  "joinWith sep [] = []"
| "joinWith sep [x] = x"
| "joinWith sep (x # y # ys) = x @ sep @ joinWith sep (y # ys)"

text \<open>
  \<open>String(v)\<close>, which is also what \<open>s + v\<close> appends to a string \<open>s\<close>; \<open>None\<close> when it
  throws a TypeError. An object is converted by its \<open>toString\<close>: a parsed object that
  has a member of that name has no callable \<open>toString\<close> (its \<open>valueOf\<close> returns the
  object itself), so the conversion throws; every other parsed object inherits the
  one that answers \<open>[object Object]\<close>. An array joins the conversions of its elements
  with commas, \<open>null\<close> as the empty string, and throws when one of them throws.
\<close>

fun toStringJs :: "json \<Rightarrow> string option" where
  "toStringJs JNull = Some ''null''"
| "toStringJs (JBool b) = Some (if b then ''true'' else ''false'')"
| "toStringJs (JNum s) = Some s"
| "toStringJs (JStr s) = Some s"
| "toStringJs (JArr xs) =
     map_option (joinWith '','')
       (those (map (\<lambda>x. if x = JNull then Some [] else toStringJs x) xs))"
| "toStringJs (JObj kvs) =
     (if map_of kvs ''toString'' \<noteq> None then None else Some ''[object Object]'')"

text \<open>
  \<open>toLowerCase\<close> on code units below 256: the ASCII capitals and the Latin-1 capitals
  (C0 to DE, without the multiplication sign D7) move up by 32.
\<close>

definition lowerChar :: "char \<Rightarrow> char" where
  "lowerChar c =
     (let n = (of_char c :: nat)
      in if (65 \<le> n \<and> n \<le> 90) \<or> (192 \<le> n \<and> n \<le> 222 \<and> n \<noteq> 215)
         then char_of (n + 32) else c)"

definition toLowerCase :: "string \<Rightarrow> string" where
  "toLowerCase s = map lowerChar s"

fun startsWith :: "string \<Rightarrow> string \<Rightarrow> bool" where
  "startsWith s [] = True"
| "startsWith [] (p # ps) = False"
| "startsWith (c # cs) (p # ps) = (c = p \<and> startsWith cs ps)"

text \<open>\<open>s.includes(p)\<close> and \<open>s.indexOf(p)\<close>.\<close>

fun indexOf :: "string \<Rightarrow> string \<Rightarrow> nat option" where
  "indexOf [] p = (if p = [] then Some 0 else None)"
| "indexOf (c # cs) p =
     (if startsWith (c # cs) p then Some 0 else map_option Suc (indexOf cs p))"

definition includesStr :: "string \<Rightarrow> string \<Rightarrow> bool" where
  "includesStr s p = (indexOf s p \<noteq> None)"

text \<open>\<open>s.split('\n')\<close>: never empty; the last element is the text after the last line feed.\<close>

fun splitLines :: "string \<Rightarrow> string list" where
  "splitLines [] = [[]]"
| "splitLines (c # cs) =
     (if c = CHR 0x0A then [] # splitLines cs
      else (case splitLines cs of [] \<Rightarrow> [[c]] | l # ls \<Rightarrow> (c # l) # ls))"

section \<open>Provider abstraction (ai/aiService.ts)\<close>

datatype ChatRole = RSystem | RUser | RAssistant | RTool

record ChatMessage =
  role :: ChatRole
  content :: string
  name :: "string option"

record ChatRequestOptions =
  temperature :: "string option"
  maxTokens :: "nat option"
  systemPrompt :: "string option"

text \<open>
  The callbacks object, by which of its three functions are present, and the calls a
  provider makes to them, in order. A call to an absent callback does not happen
  (\<open>callbacks?.onStart?.()\<close>).
\<close>

record ChatStreamCallbacks =
  hasOnToken :: bool
  hasOnStart :: bool
  hasOnComplete :: bool

datatype CallbackEvent = OnStart | OnToken string | OnComplete string

text \<open>
  What a call of \<open>chat\<close> does: the callback calls it made, the lines it logged with
  \<open>console.error\<close>, and the string it resolves to (\<open>Inr\<close>) or the message of the error
  it throws (\<open>Inl\<close>).
\<close>

record ChatOutcome =
  events :: "CallbackEvent list"
  logged :: "string list"
  result :: "string + string"

definition callStart :: "ChatStreamCallbacks \<Rightarrow> CallbackEvent list" where
  "callStart cb = (if hasOnStart cb then [OnStart] else [])"

definition callComplete :: "ChatStreamCallbacks \<Rightarrow> string \<Rightarrow> CallbackEvent list" where
  "callComplete cb text = (if hasOnComplete cb then [OnComplete text] else [])"

text \<open>
  \<open>chunkText(text)\<close> with the default chunk size 20, the only one used: the loop over
  \<open>i\<close> from \<open>0\<close> in steps of 20 while \<open>i < text.length\<close>, pushing
  \<open>text.slice(i, i + 20)\<close>.
\<close>

function chunkFrom :: "nat \<Rightarrow> string \<Rightarrow> string list" where
  "chunkFrom i text =
     (if i < length text then take 20 (drop i text) # chunkFrom (i + 20) text else [])"
  by pat_completeness auto
termination
  by (relation "measure (\<lambda>(i, text). length text - i)") auto

declare chunkFrom.simps [simp del]

definition chunkText :: "string \<Rightarrow> string list" where
  "chunkText text = chunkFrom 0 text"

text \<open>
  The reply of \<open>fetch\<close>, as far as \<open>chat\<close> reads it: the \<open>ok\<close> flag, the body as text
  (read on failure), the body as the decoded chunks a reader delivers before it
  reports \<open>done\<close> (\<open>None\<close> when \<open>response.body\<close> is null), and the text field a
  non-streamed body carries (\<open>choices[0].message.content\<close> or \<open>content[0].text\<close>),
  a string, or \<open>None\<close> when the path to it is absent.
\<close>

record HttpResponse =
  ok :: bool
  bodyText :: string
  bodyChunks :: "string list option"
  replyText :: "string option"

record HttpRequest =
  url :: string
  credential :: string
  model :: string
  messages :: "ChatMessage list"
  system :: "string option"
  stream :: bool

subsection \<open>The streaming provider\<close>

text \<open>The state of the read loop: the text so far, the callback calls and the log.\<close>

record StreamState =
  fullText :: string
  emitted :: "CallbackEvent list"
  errors :: "string list"

text \<open>
  The body of \<open>for (const line of lines)\<close>. \<open>parse\<close> is \<open>JSON.parse\<close>, \<open>None\<close> when it
  throws. Reading \<open>json.choices\<close> of \<open>null\<close> throws as well, and so does
  \<open>fullText += delta\<close> for a delta that has no string form; all three land in the
  \<open>catch\<close>, which logs, with the text and the callbacks untouched. A truthy delta
  that is not a string is appended, and passed on, as its string rendering.
\<close>

definition processLine ::
  "(string \<Rightarrow> json option) \<Rightarrow> StreamState \<Rightarrow> string \<Rightarrow> StreamState" where
  "processLine parse st line =
     (let trimmed = trim line in
      if trimmed = [] \<or> \<not> startsWith trimmed ''data:'' then st
      else
        (let payload = trim (drop 5 trimmed) in
         if payload = [] \<or> payload = ''[DONE]'' then st
         else
           (case parse payload of
              None \<Rightarrow> st\<lparr>errors := errors st @ [''Failed to parse OpenAI stream payload'']\<rparr>
            | Some JNull \<Rightarrow>
                st\<lparr>errors := errors st @ [''Failed to parse OpenAI stream payload'']\<rparr>
            | Some json \<Rightarrow>
                (let delta = optProp (optProp (optIndex0 (optProp (Some json) ''choices''))
                                        ''delta'') ''content''
                 in if truthy delta
                    then (case toStringJs (the delta) of
                            None \<Rightarrow>
                              st\<lparr>errors := errors st
                                      @ [''Failed to parse OpenAI stream payload'']\<rparr>
                          | Some shown \<Rightarrow>
                              st\<lparr>fullText := fullText st @ shown,
                                 emitted := emitted st @ [OnToken shown]\<rparr>)
                    else st))))"

text \<open>
  The \<open>while (true)\<close> loop: one round per chunk the reader delivers, ending when the
  reader reports \<open>done\<close>. The text after the last line feed stays in the buffer.
\<close>

fun readLoop ::
  "(string \<Rightarrow> json option) \<Rightarrow> string \<Rightarrow> StreamState \<Rightarrow> string list \<Rightarrow> StreamState" where
  "readLoop parse buffer st [] = st"
| "readLoop parse buffer st (val # rest) =
     (let lines = splitLines (buffer @ val)
      in readLoop parse (last lines) (foldl (processLine parse) st (butlast lines)) rest)"

definition normalizedMessages :: "ChatMessage list \<Rightarrow> ChatRequestOptions \<Rightarrow> ChatMessage list" where
  "normalizedMessages msgs options =
     (case systemPrompt options of
        None \<Rightarrow> msgs
      | Some p \<Rightarrow> if p = [] then msgs
                  else \<lparr>role = RSystem, content = p, name = None\<rparr> # msgs)"

definition OpenAIProvider_chat ::
  "(string \<Rightarrow> json option) \<Rightarrow> (HttpRequest \<Rightarrow> HttpResponse) \<Rightarrow> string \<Rightarrow> string
     \<Rightarrow> ChatMessage list \<Rightarrow> ChatRequestOptions \<Rightarrow> ChatStreamCallbacks \<Rightarrow> ChatOutcome" where
  "OpenAIProvider_chat parse fetch apiKey mdl msgs options cb =
     (if apiKey = [] then
        \<lparr>events = [], logged = [],
         result = Inl ''OpenAI API key not set. Use \"Code Guardian: Set API Key\" to store your key securely.''\<rparr>
      else
        (let response = fetch \<lparr>url = ''https://api.openai.com/v1/chat/completions'',
                                credential = apiKey, model = mdl,
                                messages = normalizedMessages msgs options,
                                system = None, stream = hasOnToken cb\<rparr>
         in if \<not> ok response then
              \<lparr>events = [], logged = [],
               result = Inl (''OpenAI chat failed: '' @ bodyText response)\<rparr>
            else
              (case (if hasOnToken cb then bodyChunks response else None) of
                 None \<Rightarrow>
                   (let text = (case replyText response of None \<Rightarrow> [] | Some t \<Rightarrow> t)
                    in \<lparr>events = callStart cb
                                   @ (if text \<noteq> [] \<and> hasOnToken cb
                                      then map OnToken (chunkText text) else [])
                                   @ callComplete cb text,
                         logged = [], result = Inr text\<rparr>)
               | Some chunks \<Rightarrow>
                   (let st = readLoop parse []
                               \<lparr>fullText = [], emitted = callStart cb, errors = []\<rparr> chunks
                    in \<lparr>events = emitted st @ callComplete cb (fullText st),
                         logged = errors st, result = Inr (fullText st)\<rparr>))))"

subsection \<open>The providers without streaming\<close>

definition payloadMessages :: "ChatMessage list \<Rightarrow> ChatRequestOptions \<Rightarrow> ChatMessage list" where
  "payloadMessages msgs options =
     (let mapped = map (\<lambda>m. \<lparr>role = (if role m = RAssistant then RAssistant else RUser),
                               content = content m, name = None\<rparr>) msgs
      in case systemPrompt options of
           None \<Rightarrow> mapped
         | Some p \<Rightarrow> if p = [] then mapped
                     else \<lparr>role = RUser, content = p, name = None\<rparr> # mapped)"

definition AnthropicProvider_chat ::
  "(HttpRequest \<Rightarrow> HttpResponse) \<Rightarrow> string
     \<Rightarrow> ChatMessage list \<Rightarrow> ChatRequestOptions \<Rightarrow> ChatStreamCallbacks \<Rightarrow> ChatOutcome" where
  "AnthropicProvider_chat fetch apiKey msgs options cb =
     (if apiKey = [] then
        \<lparr>events = [], logged = [],
         result = Inl ''Anthropic API key not set. Use \"Code Guardian: Set API Key\" to store your key securely.''\<rparr>
      else
        (let response = fetch \<lparr>url = ''https://api.anthropic.com/v1/messages'',
                                credential = apiKey, model = ''claude-3-opus-20240229'',
                                messages = payloadMessages msgs options,
                                system = systemPrompt options, stream = False\<rparr>
         in if \<not> ok response then
              \<lparr>events = [], logged = [],
               result = Inl (''Anthropic chat failed: '' @ bodyText response)\<rparr>
            else
              (let text = (case replyText response of None \<Rightarrow> [] | Some t \<Rightarrow> t)
               in \<lparr>events = callStart cb
                              @ (if text \<noteq> [] \<and> hasOnToken cb
                                 then map OnToken (chunkText text) else [])
                              @ callComplete cb text,
                    logged = [], result = Inr text\<rparr>)))"

text \<open>Decimal rendering of \<open>messages.length\<close> in the template string.\<close>

fun digitsOf :: "nat \<Rightarrow> nat \<Rightarrow> string" where
  "digitsOf 0 n = []"
| "digitsOf (Suc fuel) n =
     (if n < 10 then [char_of (48 + n)]
      else digitsOf fuel (n div 10) @ [char_of (48 + n mod 10)])"

definition showNat :: "nat \<Rightarrow> string" where
  "showNat n = digitsOf (Suc n) n"

definition LocalProvider_chat ::
  "ChatMessage list \<Rightarrow> ChatRequestOptions \<Rightarrow> ChatStreamCallbacks \<Rightarrow> ChatOutcome" where
  "LocalProvider_chat msgs options cb =
     (let reply = ''Local mode placeholder. Provider is offline. Messages received: ''
                    @ showNat (length msgs)
      in \<lparr>events = callStart cb
                     @ (if hasOnToken cb then map OnToken (chunkText reply) else [])
                     @ callComplete cb reply,
           logged = [], result = Inr reply\<rparr>)"

subsection \<open>A reader for JSON texts\<close>

text \<open>
  \<open>JSON.parse\<close> belongs to the runtime; the functions of the program take it as the
  parameter \<open>parse\<close>. \<open>jsonParse\<close> is a reader for the part of the JSON grammar that
  the concrete texts below use: objects (a repeated key keeps its first place and its
  last value), arrays, strings with the two-character escapes, the three literals, and
  integers of at most 15 digits. It answers \<open>None\<close> on every other text. The fuel is the
  length of the text, which bounds the nesting.
\<close>

definition isJsonWs :: "char \<Rightarrow> bool" where
  "isJsonWs c \<longleftrightarrow> c = CHR 0x20 \<or> c = CHR 0x09 \<or> c = CHR 0x0A \<or> c = CHR 0x0D"

definition skipWs :: "string \<Rightarrow> string" where
  "skipWs s = dropWhile isJsonWs s"

definition isDigit :: "char \<Rightarrow> bool" where
  "isDigit c \<longleftrightarrow> c \<in> set ''0123456789''"

definition unescape :: "char \<Rightarrow> char option" where
  "unescape e =
     (if e = CHR 0x22 then Some (CHR 0x22)
      else if e = CHR 0x5C then Some (CHR 0x5C)
      else if e = CHR ''/'' then Some (CHR ''/'')
      else if e = CHR ''b'' then Some (CHR 0x08)
      else if e = CHR ''f'' then Some (CHR 0x0C)
      else if e = CHR ''n'' then Some (CHR 0x0A)
      else if e = CHR ''r'' then Some (CHR 0x0D)
      else if e = CHR ''t'' then Some (CHR 0x09)
      else None)"

text \<open>The characters of a string after its opening quote, and the text after its closing quote.\<close>

fun parseStringBody :: "string \<Rightarrow> (string \<times> string) option" where
  "parseStringBody [] = None"
| "parseStringBody [c] = (if c = CHR 0x22 then Some ([], []) else None)"
| "parseStringBody (c # d # cs) =
     (if c = CHR 0x22 then Some ([], d # cs)
      else if c = CHR 0x5C then
        (case unescape d of
           None \<Rightarrow> None
         | Some ch \<Rightarrow> map_option (\<lambda>(s, r). (ch # s, r)) (parseStringBody cs))
      else if (of_char c :: nat) < 32 then None
      else map_option (\<lambda>(s, r). (c # s, r)) (parseStringBody (d # cs)))"

definition parseNumber :: "string \<Rightarrow> (json \<times> string) option" where
  "parseNumber s =
     (let neg = (s \<noteq> [] \<and> hd s = CHR ''-'');
          body = (if neg then tl s else s);
          ds = takeWhile isDigit body;
          r = dropWhile isDigit body
      in if ds = [] \<or> length ds > 15 \<or> (length ds > 1 \<and> hd ds = CHR ''0'') then None
         else if r \<noteq> [] \<and> (hd r = CHR ''.'' \<or> hd r = CHR ''e'' \<or> hd r = CHR ''E'') then None
         else if ds = ''0'' then Some (JNum ''0'', r)
         else Some (JNum ((if neg then ''-'' else []) @ ds), r))"

fun setMember :: "string \<Rightarrow> json \<Rightarrow> (string \<times> json) list \<Rightarrow> (string \<times> json) list" where
  "setMember k v [] = [(k, v)]"
| "setMember k v ((k', v') # kvs) =
     (if k' = k then (k, v) # kvs else (k', v') # setMember k v kvs)"

fun parseValue :: "nat \<Rightarrow> string \<Rightarrow> (json \<times> string) option"
  and parseMembers :: "nat \<Rightarrow> (string \<times> json) list \<Rightarrow> string
                         \<Rightarrow> ((string \<times> json) list \<times> string) option"
  and parseElements :: "nat \<Rightarrow> json list \<Rightarrow> string \<Rightarrow> (json list \<times> string) option"
where
  "parseValue 0 s = None"
| "parseValue (Suc n) s =
     (case skipWs s of
        [] \<Rightarrow> None
      | c # r \<Rightarrow>
          if c = CHR ''{'' then
            (case skipWs r of
               [] \<Rightarrow> None
             | d # r' \<Rightarrow> if d = CHR ''}'' then Some (JObj [], r')
                         else map_option (\<lambda>(kvs, q). (JObj kvs, q)) (parseMembers n [] r))
          else if c = CHR ''['' then
            (case skipWs r of
               [] \<Rightarrow> None
             | d # r' \<Rightarrow> if d = CHR '']'' then Some (JArr [], r')
                         else map_option (\<lambda>(vs, q). (JArr vs, q)) (parseElements n [] r))
          else if c = CHR 0x22 then map_option (\<lambda>(str, q). (JStr str, q)) (parseStringBody r)
          else if startsWith (c # r) ''true'' then Some (JBool True, drop 4 (c # r))
          else if startsWith (c # r) ''false'' then Some (JBool False, drop 5 (c # r))
          else if startsWith (c # r) ''null'' then Some (JNull, drop 4 (c # r))
          else parseNumber (c # r))"
| "parseMembers 0 acc s = None"
| "parseMembers (Suc n) acc s =
     (case skipWs s of
        [] \<Rightarrow> None
      | c # r \<Rightarrow>
          if c \<noteq> CHR 0x22 then None
          else
            (case parseStringBody r of
               None \<Rightarrow> None
             | Some (k, r1) \<Rightarrow>
                 (case skipWs r1 of
                    [] \<Rightarrow> None
                  | d # r2 \<Rightarrow>
                      if d \<noteq> CHR '':'' then None
                      else
                        (case parseValue n r2 of
                           None \<Rightarrow> None
                         | Some (v, r3) \<Rightarrow>
                             (case skipWs r3 of
                                [] \<Rightarrow> None
                              | e # r4 \<Rightarrow>
                                  if e = CHR '','' then parseMembers n (setMember k v acc) r4
                                  else if e = CHR ''}'' then Some (setMember k v acc, r4)
                                  else None)))))"
| "parseElements 0 acc s = None"
| "parseElements (Suc n) acc s =
     (case parseValue n s of
        None \<Rightarrow> None
      | Some (v, r) \<Rightarrow>
          (case skipWs r of
             [] \<Rightarrow> None
           | e # r' \<Rightarrow>
               if e = CHR '','' then parseElements n (acc @ [v]) r'
               else if e = CHR '']'' then Some (acc @ [v], r')
               else None))"

definition jsonParse :: "string \<Rightarrow> json option" where
  "jsonParse s =
     (case parseValue (Suc (length s)) s of
        None \<Rightarrow> None
      | Some (v, r) \<Rightarrow> if skipWs r = [] then Some v else None)"

section \<open>Fix orchestrator: reading the approval reply (chat/fixAgent.ts)\<close>

datatype Decision = Approve | Reject

record ApprovalResult =
  a_decision :: Decision
  a_notes :: string

text \<open>\<open>\w\<close> or \<open>-\<close>: the characters the regular expression allows after the fence.\<close>

definition isWordOrDash :: "char \<Rightarrow> bool" where
  "isWordOrDash c =
     (let n = (of_char c :: nat)
      in (48 \<le> n \<and> n \<le> 57) \<or> (65 \<le> n \<and> n \<le> 90) \<or> (97 \<le> n \<and> n \<le> 122)
         \<or> c = CHR ''_'' \<or> c = CHR ''-'')"

text \<open>
  The regular expression \<open>```[\w-]*\n([\s\S]*?)```\<close> tried at the start of \<open>s\<close>: the
  fence, the longest run of word characters (a shorter run cannot be followed by a
  line feed), a line feed, and the shortest text up to the next fence. The result is
  the captured group.
\<close>

definition matchFenceAt :: "string \<Rightarrow> string option" where
  "matchFenceAt s =
     (if startsWith s ''```'' then
        (case dropWhile isWordOrDash (drop 3 s) of
           [] \<Rightarrow> None
         | c # body \<Rightarrow>
             if c = CHR 0x0A then map_option (\<lambda>k. take k body) (indexOf body ''```'')
             else None)
      else None)"

text \<open>\<open>response.match(...)\<close> takes the leftmost position where the expression matches.\<close>

fun firstFence :: "string \<Rightarrow> string option" where
  "firstFence [] = None"
| "firstFence (c # cs) =
     (case matchFenceAt (c # cs) of Some g \<Rightarrow> Some g | None \<Rightarrow> firstFence cs)"

definition extractCodeBlock :: "string \<Rightarrow> string option" where
  "extractCodeBlock response = map_option trim (firstFence response)"

fun lastIndexOfChar :: "string \<Rightarrow> char \<Rightarrow> nat option" where
  "lastIndexOfChar [] x = None"
| "lastIndexOfChar (c # cs) x =
     (case lastIndexOfChar cs x of
        Some i \<Rightarrow> Some (Suc i)
      | None \<Rightarrow> if c = x then Some 0 else None)"

definition extractJsonCandidate :: "string \<Rightarrow> string option" where
  "extractJsonCandidate response =
     (let codeBlock = extractCodeBlock response;
          fenced = (case codeBlock of
                      None \<Rightarrow> None
                    | Some b \<Rightarrow> if b \<noteq> [] \<and> startsWith (trim b) ''{'' then Some (trim b)
                                else None)
      in case fenced of
           Some j \<Rightarrow> Some j
         | None \<Rightarrow>
             (case (indexOf response ''{'', lastIndexOfChar response (CHR ''}'')) of
                (Some firstBrace, Some lastBrace) \<Rightarrow>
                  if lastBrace > firstBrace
                  then Some (trim (take (Suc lastBrace - firstBrace) (drop firstBrace response)))
                  else None
              | _ \<Rightarrow> None))"

text \<open>
  \<open>parseApprovalResponse\<close>. \<open>fromJson\<close> is what the \<open>try\<close> returns, \<open>None\<close> when it is
  not entered or is left through the \<open>catch\<close>: \<open>JSON.parse\<close> may throw, reading
  \<open>parsed.decision\<close> of \<open>null\<close> throws, and \<open>String(parsed.decision)\<close> throws for a
  decision that has no string form. The \<open>catch\<close> warns and falls through to the scan
  of the text.
\<close>

definition parseApprovalResponse :: "(string \<Rightarrow> json option) \<Rightarrow> string \<Rightarrow> ApprovalResult" where
  "parseApprovalResponse parse response =
     (let trimmed = trim response;
          jsonCandidate = extractJsonCandidate trimmed;
          parsed = (case jsonCandidate of
                      None \<Rightarrow> None
                    | Some j \<Rightarrow> if j = [] then None
                                else (case parse j of Some JNull \<Rightarrow> None | p \<Rightarrow> p));
          fromJson =
            (case parsed of
               None \<Rightarrow> None
             | Some p \<Rightarrow>
                 (let d = optProp (Some p) ''decision'';
                      n = optProp (Some p) ''notes''
                  in case (if truthy d then toStringJs (the d) else Some []) of
                       None \<Rightarrow> None
                     | Some shown \<Rightarrow>
                         Some \<lparr>a_decision = (if toLowerCase shown = ''approve'' then Approve
                                              else Reject),
                               a_notes = (case n of Some (JStr s) \<Rightarrow> trim s | _ \<Rightarrow> [])\<rparr>))
      in case fromJson of
           Some r \<Rightarrow> r
         | None \<Rightarrow>
             (let normalized = toLowerCase trimmed
              in if includesStr normalized ''approve'' \<and> \<not> includesStr normalized ''reject''
                 then \<lparr>a_decision = Approve, a_notes = trimmed\<rparr>
                 else \<lparr>a_decision = Reject,
                       a_notes = (if trimmed = [] then ''Approval agent returned an empty response.''
                                else trimmed)\<rparr>))"

section \<open>The service seen by its callers\<close>

text \<open>
  \<open>AIService.chat\<close> hands the call to the configured provider, logs an error and
  throws it again. Its callers are written against any such function: \<open>chat\<close> takes
  the state of the service and returns the outcome together with the next state, so
  that a provider may answer each call differently.
\<close>

type_synonym 'p ChatFn =
  "'p \<Rightarrow> ChatMessage list \<Rightarrow> ChatRequestOptions \<Rightarrow> ChatStreamCallbacks \<Rightarrow> ChatOutcome \<times> 'p"

datatype Notification =
  ShowError string | ShowWarning string | ShowInformation string "string list"

record WorkspaceEdit =
  e_uri :: string
  e_startLine :: int
  e_endLine :: int
  e_replacement :: string

record ChatRequest =
  q_messages :: "ChatMessage list"
  q_options :: ChatRequestOptions
  q_callbacks :: ChatStreamCallbacks

text \<open>
  Everything a controller or an agent can touch: the session store, the service, and
  the records of what it asked of the editor: the calls of \<open>chat\<close>, the messages shown
  in the window, the console lines, the workspace edits applied, the saves of the
  document and the reveals of the chat view.
\<close>

record 'p World =
  store :: ChatSessionManager
  service :: 'p
  requests :: "ChatRequest list"
  notifications :: "Notification list"
  console :: "string list"
  edits :: "WorkspaceEdit list"
  saves :: nat
  reveals :: nat

definition noOptions :: ChatRequestOptions where
  "noOptions = \<lparr>temperature = None, maxTokens = None, systemPrompt = None\<rparr>"

definition noCallbacks :: ChatStreamCallbacks where
  "noCallbacks = \<lparr>hasOnToken = False, hasOnStart = False, hasOnComplete = False\<rparr>"

text \<open>The callbacks both callers pass: \<open>onToken\<close> and \<open>onComplete\<close>.\<close>

definition tokenCallbacks :: ChatStreamCallbacks where
  "tokenCallbacks = \<lparr>hasOnToken = True, hasOnStart = False, hasOnComplete = True\<rparr>"

definition callChat ::
  "'p ChatFn \<Rightarrow> ChatMessage list \<Rightarrow> ChatRequestOptions \<Rightarrow> ChatStreamCallbacks \<Rightarrow> 'p World
     \<Rightarrow> ChatOutcome \<times> 'p World" where
  "callChat chat msgs options cb w =
     (let (outcome, p') = chat (service w) msgs options cb
      in (outcome,
          w\<lparr>service := p',
            requests := requests w @ [\<lparr>q_messages = msgs, q_options = options,
                                       q_callbacks = cb\<rparr>],
            console := console w @ logged outcome
                       @ (case result outcome of Inl e \<Rightarrow> [''Chat interaction failed:'']
                          | Inr _ \<Rightarrow> [])\<rparr>))"

definition plainMessage :: "ChatMessageRole \<Rightarrow> string \<Rightarrow> NewMessage" where
  "plainMessage r c = \<lparr>n_id = None, n_createdAt = None, n_role = r, n_content = c,
                       n_pending = None, n_metadata = None\<rparr>"

definition pendingMessage :: NewMessage where
  "pendingMessage = \<lparr>n_id = None, n_createdAt = None, n_role = Assistant, n_content = [],
                      n_pending = Some True, n_metadata = None\<rparr>"

section \<open>Chat controller (chat/chatController.ts)\<close>

definition buildChatHistory :: "ChatSession option \<Rightarrow> ChatMessage list" where
  "buildChatHistory session =
     (case session of
        None \<Rightarrow> []
      | Some s \<Rightarrow>
          map (\<lambda>m. \<lparr>role = (if m_role m = User then RUser else RAssistant),
                      content = m_content m, name = None\<rparr>)
              (filter (\<lambda>m. m_role m = User \<or> m_role m = Assistant) (s_messages s)))"

definition metadataString :: "Metadata option \<Rightarrow> string \<Rightarrow> string" where
  "metadataString md key =
     (case md of
        None \<Rightarrow> []
      | Some kvs \<Rightarrow> (case map_of kvs key of Some (Some v) \<Rightarrow> v | _ \<Rightarrow> []))"

definition buildSystemPrompt :: "ChatSession \<Rightarrow> string" where
  "buildSystemPrompt session =
     (let base = ''You are Code Guardian, a security expert assistant embedded in VS Code. Provide concise, actionable answers about vulnerabilities and secure coding. Where appropriate, include code samples. Maintain a collaborative tone.'';
          issue = metadataString (s_metadata session) ''vulnerabilityMessage''
      in if issue \<noteq> [] then base @ [CHR 0x0A] @ ''Current issue: '' @ issue else base)"

text \<open>The two callbacks of the controller, applied to the calls the provider made.\<close>

fun controllerCallback ::
  "Env \<Rightarrow> string \<Rightarrow> string \<Rightarrow> ChatSessionManager \<Rightarrow> CallbackEvent \<Rightarrow> ChatSessionManager" where
  "controllerCallback E sessionId messageId m OnStart = m"
| "controllerCallback E sessionId messageId m (OnToken token) =
     fst (appendToMessage E m sessionId messageId token)"
| "controllerCallback E sessionId messageId m (OnComplete t) =
     updateSessionStatus E
       (fst (updateMessage E m sessionId messageId
              \<lparr>u_content = None, u_pending = Some False, u_metadata = None\<rparr>))
       sessionId Idle"

definition handleUserMessage ::
  "Env \<Rightarrow> 'p ChatFn \<Rightarrow> 'p World \<Rightarrow> string \<Rightarrow> string \<Rightarrow> 'p World" where
  "handleUserMessage E chat w sessionId text =
     (case getSession (store w) sessionId of
        None \<Rightarrow> w\<lparr>notifications := notifications w @ [ShowError ''Chat session not found.'']\<rparr>
      | Some session \<Rightarrow>
          if \<not> allowUserInput session then
            w\<lparr>notifications := notifications w @ [ShowWarning ''This session is read-only.'']\<rparr>
          else if trim text = [] then w
          else
            (let (m1, userMsg) = addMessage E (store w) sessionId (plainMessage User (trim text));
                 (m2, assistantPlaceholder) = addMessage E m1 sessionId pendingMessage
             in case assistantPlaceholder of
                  None \<Rightarrow> w\<lparr>store := m2\<rparr>
                | Some placeholder \<Rightarrow>
                    (let m3 = updateSessionStatus E m2 sessionId Running;
                         chatHistory = buildChatHistory (getSession m3 sessionId);
                         (outcome, w1) = callChat chat chatHistory
                            (noOptions\<lparr>systemPrompt := Some (buildSystemPrompt session)\<rparr>)
                            tokenCallbacks (w\<lparr>store := m3\<rparr>);
                         m4 = foldl (controllerCallback E sessionId (m_id placeholder))
                                (store w1) (events outcome)
                     in case result outcome of
                          Inr reply \<Rightarrow> w1\<lparr>store := m4\<rparr>
                        | Inl err \<Rightarrow>
                            (let m5 = fst (updateMessage E m4 sessionId (m_id placeholder)
                                   \<lparr>u_content = Some ''I ran into an issue answering that question. Please check your provider configuration and try again.'',
                                    u_pending = Some False, u_metadata = None\<rparr>);
                                 m6 = updateSessionStatus E m5 sessionId Error
                             in w1\<lparr>store := m6,
                                   console := console w1 @ [''Failed to handle user message''],
                                   notifications := notifications w1
                                     @ [ShowError ''Code Guardian chat failed. See logs for details.'']\<rparr>))))"

section \<open>Fix orchestrator (chat/fixAgent.ts)\<close>

text \<open>
  The editor's document and diagnostic, as far as the agent reads them. \<open>baseName\<close> is
  \<open>path.basename(fileName)\<close> and \<open>getText a b\<close> is the text from the start of line
  \<open>a\<close> to the end of line \<open>b\<close>. Lines count from 0.

  Code units above 255 cannot be written in a \<open>string\<close>: each emoji that opens a
  progress message is written as its name in brackets, the arrow of the tool message
  as \<open>->\<close>, and the lenticular brackets around \<open>content\<close>, \<open>original_snippet\<close> and
  \<open>approval_feedback\<close> as square brackets.
\<close>

record TextDocument =
  fileName :: string
  baseName :: string
  fsPath :: string
  languageId :: string
  lineCount :: int
  getText :: "int \<Rightarrow> int \<Rightarrow> string"

record Diagnostic =
  d_startLine :: int
  d_endLine :: int
  d_message :: string
  d_code :: "string option"

record FixContext =
  snippet :: string
  languageIdOf :: string
  startLine :: int
  endLine :: int

record Proposal =
  raw :: string
  replacement :: string

definition APPLY_ACTION :: string where
  "APPLY_ACTION = ''Apply Fix''"

definition nl :: string where
  "nl = [CHR 0x0A]"

text \<open>Decimal rendering of an integer inside a template string.\<close>

definition showInt :: "int \<Rightarrow> string" where
  "showInt i = (if i < 0 then ''-'' @ showNat (nat (- i)) else showNat (nat i))"

definition buildSessionTitle :: "TextDocument \<Rightarrow> Diagnostic \<Rightarrow> string" where
  "buildSessionTitle document diagnostic =
     ''Fix '' @ baseName document @ '':'' @ showInt (d_startLine diagnostic + 1)"

definition buildContext :: "TextDocument \<Rightarrow> Diagnostic \<Rightarrow> FixContext" where
  "buildContext document diagnostic =
     (let s = max 0 (d_startLine diagnostic - 5);
          e = min (lineCount document - 1) (d_endLine diagnostic + 5)
      in \<lparr>snippet = getText document s e, languageIdOf = languageId document,
           startLine = s, endLine = e\<rparr>)"

definition renderToolMessage :: "string \<Rightarrow> string \<Rightarrow> string \<Rightarrow> string" where
  "renderToolMessage tool target payload =
     (let truncated = (if length payload > 3000
                       then take 3000 payload @ nl @ ''... (truncated)'' else payload)
      in ''`'' @ tool @ ''` -> '' @ target @ nl @ nl @ ''[content]'' @ nl @ truncated)"

text \<open>\<open>xs.map((feedback, index) => f(index + 1, feedback))\<close>.\<close>

fun numbered :: "(nat \<Rightarrow> string \<Rightarrow> string) \<Rightarrow> nat \<Rightarrow> string list \<Rightarrow> string list" where
  "numbered f i [] = []"
| "numbered f i (x # xs) = f (Suc i) x # numbered f (Suc i) xs"

definition buildFixPrompt ::
  "TextDocument \<Rightarrow> Diagnostic \<Rightarrow> FixContext \<Rightarrow> nat \<Rightarrow> string list \<Rightarrow> string" where
  "buildFixPrompt document diagnostic context attempt revisionFeedback =
     (let feedbackSection =
            (if revisionFeedback \<noteq> [] then
               nl @ nl @ ''[approval_feedback]'' @ nl
               @ joinWith (nl @ nl)
                   (numbered (\<lambda>i feedback. ''Feedback '' @ showNat i @ '': '' @ feedback) 0
                      revisionFeedback)
               @ nl @ nl
               @ ''Incorporate every item above while keeping the fix correct and secure.''
             else [])
      in ''File: '' @ fileName document @ nl
         @ ''Language: '' @ languageId document @ nl
         @ ''Issue: '' @ d_message diagnostic @ nl
         @ ''Attempt: '' @ showNat attempt @ nl
         @ ''Lines '' @ showInt (startLine context + 1) @ ''-''
         @ showInt (endLine context + 1) @ '':'' @ nl
         @ nl @ nl @ ''[original_snippet]'' @ nl
         @ snippet context @ feedbackSection @ nl
         @ nl @ nl @ ''Provide only the secure updated snippet that resolves the issue.'')"

definition buildApprovalPrompt ::
  "TextDocument \<Rightarrow> Diagnostic \<Rightarrow> FixContext \<Rightarrow> Proposal \<Rightarrow> nat \<Rightarrow> string list \<Rightarrow> string" where
  "buildApprovalPrompt document diagnostic context proposal attempt revisionFeedback =
     (let priorFeedback =
            (if revisionFeedback \<noteq> [] then
               nl @ nl @ ''Previous approval feedback:'' @ nl
               @ joinWith nl
                   (numbered (\<lambda>i feedback. showNat i @ ''. '' @ feedback) 0 revisionFeedback)
             else [])
      in ''You will review a proposed fix for a security issue.'' @ nl
         @ ''File: '' @ fileName document @ nl
         @ ''Language: '' @ languageId document @ nl
         @ ''Issue: '' @ d_message diagnostic @ nl
         @ ''Attempt: '' @ showNat attempt @ priorFeedback @ nl
         @ nl @ nl @ ''Original snippet:'' @ nl @ snippet context @ nl
         @ nl @ nl @ ''Proposed replacement:'' @ nl @ replacement proposal @ nl
         @ nl @ nl @ ''Decide whether to approve the fix. Approve when the change resolves the issue without introducing new risks or regressions. Reject only when important fixes are still missing, the change is unsafe, or quality issues are severe. Provide concise notes explaining your decision.'')"

definition fixSystemPrompt :: string where
  "fixSystemPrompt = ''You are a senior security engineer. Return only the corrected code snippet that should replace the provided block. Maintain formatting and indentation. If no changes are necessary, echo the original snippet.''"

definition approvalSystemPrompt :: string where
  "approvalSystemPrompt = ''You are the approval agent for a secure coding assistant. Evaluate the proposed fix conservatively but fairly. Respond ONLY with a compact JSON object: {\"decision\":\"approve\"|\"reject\",\"notes\":\"short actionable feedback\"}. Approve when the fix resolves the issue without introducing problems. Reject only for correctness, security, or serious quality concerns.''"

text \<open>\<open>sessionManager.addMessage(sessionId, {role, content})\<close> with the result dropped.\<close>

definition say :: "Env \<Rightarrow> string \<Rightarrow> ChatMessageRole \<Rightarrow> string \<Rightarrow> 'p World \<Rightarrow> 'p World" where
  "say E sessionId r c w = w\<lparr>store := fst (addMessage E (store w) sessionId (plainMessage r c))\<rparr>"

definition setStatus :: "Env \<Rightarrow> string \<Rightarrow> ChatSessionStatus \<Rightarrow> 'p World \<Rightarrow> 'p World" where
  "setStatus E sessionId st w = w\<lparr>store := updateSessionStatus E (store w) sessionId st\<rparr>"

text \<open>
  The two callbacks of \<open>requestFix\<close>: \<open>onToken\<close> extends the local \<open>fullText\<close> and the
  pending message, \<open>onComplete\<close> clears \<open>pending\<close>. The state is the pair of the text
  and the store.
\<close>

fun fixCallback ::
  "Env \<Rightarrow> string \<Rightarrow> string \<Rightarrow> string \<times> ChatSessionManager \<Rightarrow> CallbackEvent
     \<Rightarrow> string \<times> ChatSessionManager" where
  "fixCallback E sessionId messageId (full, m) OnStart = (full, m)"
| "fixCallback E sessionId messageId (full, m) (OnToken token) =
     (full @ token, fst (appendToMessage E m sessionId messageId token))"
| "fixCallback E sessionId messageId (full, m) (OnComplete t) =
     (full, fst (updateMessage E m sessionId messageId
                   \<lparr>u_content = None, u_pending = Some False, u_metadata = None\<rparr>))"

text \<open>The parts of a run that stay the same through its attempts.\<close>

record 'p FixRun =
  env :: Env
  jsonOf :: "string \<Rightarrow> json option"
  chatOf :: "'p ChatFn"
  document :: TextDocument
  diagnostic :: Diagnostic
  contextOf :: FixContext
  sessionIdOf :: string

definition requestFix ::
  "'p FixRun \<Rightarrow> nat \<Rightarrow> string list \<Rightarrow> 'p World \<Rightarrow> (string + Proposal) \<times> 'p World" where
  "requestFix R attempt revisionFeedback w =
     (let attemptLabel = (if attempt > 1 then '' (attempt '' @ showNat attempt @ '')'' else []);
          w1 = say (env R) (sessionIdOf R) Agent
                 (''[robot] Requesting secure fix from provider'' @ attemptLabel @ ''...'') w;
          (m2, assistantMessage) = addMessage (env R) (store w1) (sessionIdOf R) pendingMessage;
          w2 = w1\<lparr>store := m2\<rparr>
      in case assistantMessage of
           None \<Rightarrow> (Inl ''Failed to append provider response message.'', w2)
         | Some am \<Rightarrow>
             (let requestMessages =
                    [\<lparr>role = RUser,
                      content = buildFixPrompt (document R) (diagnostic R) (contextOf R)
                                  attempt revisionFeedback,
                      name = None\<rparr>];
                  (outcome, w3) = callChat (chatOf R) requestMessages
                     (noOptions\<lparr>systemPrompt := Some fixSystemPrompt\<rparr>) tokenCallbacks w2;
                  (full, m4) = foldl (fixCallback (env R) (sessionIdOf R) (m_id am))
                                 ([], store w3) (events outcome);
                  w4 = w3\<lparr>store := m4\<rparr>
              in case result outcome of
                   Inl err \<Rightarrow> (Inl err, w4)
                 | Inr reply \<Rightarrow>
                     (let repl = (case extractCodeBlock full of Some b \<Rightarrow> b
                                  | None \<Rightarrow> trim full)
                      in if repl = [] then (Inl ''Provider returned an empty fix.'', w4)
                         else (Inr \<lparr>raw = full, replacement = repl\<rparr>, w4))))"

definition reviewFix ::
  "'p FixRun \<Rightarrow> Proposal \<Rightarrow> nat \<Rightarrow> string list \<Rightarrow> 'p World
     \<Rightarrow> (string + ApprovalResult) \<times> 'p World" where
  "reviewFix R proposal attempt revisionFeedback w =
     (let w1 = say (env R) (sessionIdOf R) Agent
                 ''[test tube] Approval agent reviewing proposed fix...'' w;
          reviewPrompt = buildApprovalPrompt (document R) (diagnostic R) (contextOf R)
                           proposal attempt revisionFeedback;
          (outcome, w2) = callChat (chatOf R)
                            [\<lparr>role = RUser, content = reviewPrompt, name = None\<rparr>]
                            (noOptions\<lparr>systemPrompt := Some approvalSystemPrompt\<rparr>)
                            noCallbacks w1
      in case result outcome of
           Inl err \<Rightarrow> (Inl err, w2)
         | Inr response \<Rightarrow>
             (let approval = parseApprovalResponse (jsonOf R) response;
                  displayMessage =
                    (if a_decision approval = Approve
                     then ''[check mark] Approval agent: ''
                          @ (if a_notes approval = [] then ''The fix looks good. Ready to apply.''
                             else a_notes approval)
                     else ''[warning] Approval agent requested changes: ''
                          @ (if a_notes approval = []
                             then ''Please adjust the fix before applying.''
                             else a_notes approval))
              in (Inr approval, say (env R) (sessionIdOf R) Assistant displayMessage w2)))"

text \<open>
  The \<open>while (attempt < maxAttempts)\<close> loop of \<open>run\<close>, with its four local variables.
  Each round raises \<open>attempt\<close>, so the rounds left, \<open>maxAttempts - attempt\<close>, go down.
\<close>

function attemptLoop ::
  "'p FixRun \<Rightarrow> nat \<Rightarrow> nat \<Rightarrow> string list \<Rightarrow> Proposal option \<Rightarrow> ApprovalResult option
     \<Rightarrow> 'p World \<Rightarrow> (string + Proposal option \<times> ApprovalResult option) \<times> 'p World" where
  "attemptLoop R maxAttempts attempt revisionFeedback proposal approval w =
     (if attempt < maxAttempts then
        (let attempt' = attempt + 1;
             w1 = (if attempt' > 1
                   then say (env R) (sessionIdOf R) Agent
                          (''[repeat] Revision attempt '' @ showNat attempt'
                           @ '' requested based on approval feedback.'') w
                   else w)
         in case requestFix R attempt' revisionFeedback w1 of
              (Inl err, w2) \<Rightarrow> (Inl err, w2)
            | (Inr prop, w2) \<Rightarrow>
                (case reviewFix R prop attempt' revisionFeedback w2 of
                   (Inl err, w3) \<Rightarrow> (Inl err, w3)
                 | (Inr appr, w3) \<Rightarrow>
                     if a_decision appr = Approve then (Inr (Some prop, Some appr), w3)
                     else
                       (let feedback' = revisionFeedback
                              @ [if a_notes appr = []
                                 then ''Approval agent requires improvements but did not provide specific notes.''
                                 else a_notes appr]
                        in if attempt' \<ge> maxAttempts then (Inr (Some prop, Some appr), w3)
                           else attemptLoop R maxAttempts attempt' feedback' (Some prop)
                                  (Some appr)
                                  (say (env R) (sessionIdOf R) Agent
                                     ''[arrows] Approval agent requested changes. Updating instructions for the fix provider.''
                                     w3))))
      else (Inr (proposal, approval), w))"
  by pat_completeness auto
termination
  by (relation "measure (\<lambda>(R, maxAttempts, attempt, rest). maxAttempts - attempt)") auto

declare attemptLoop.simps [simp del]

text \<open>The constant of \<open>run\<close> that bounds the loop.\<close>

definition maxAttempts :: nat where
  "maxAttempts = 1"

text \<open>
  \<open>applyFix\<close>: \<open>applyEdit\<close> answers \<open>applied\<close>; an edit that is refused changes nothing
  and throws, an edit that is applied is followed by \<open>document.save()\<close>.
\<close>

definition applyFix ::
  "bool \<Rightarrow> TextDocument \<Rightarrow> FixContext \<Rightarrow> string \<Rightarrow> 'p World \<Rightarrow> (string + unit) \<times> 'p World" where
  "applyFix applied doc ctx repl w =
     (if \<not> applied then (Inl ''VS Code rejected the workspace edit.'', w)
      else (Inr (), w\<lparr>edits := edits w @ [\<lparr>e_uri = fsPath doc, e_startLine = startLine ctx,
                                              e_endLine = endLine ctx, e_replacement = repl\<rparr>],
                       saves := Suc (saves w)\<rparr>))"

text \<open>
  The body of the \<open>try\<close> of \<open>run\<close>. \<open>userChoice\<close> is what the information message
  resolves to and \<open>applied\<close> what \<open>applyEdit\<close> resolves to.
\<close>

definition runBody ::
  "'p FixRun \<Rightarrow> string option \<Rightarrow> bool \<Rightarrow> 'p World \<Rightarrow> (string + unit) \<times> 'p World" where
  "runBody R userChoice applied w =
     (let E = env R; sid = sessionIdOf R;
          w1 = say E sid Agent ''[magnifier] Gathering code context with `read_file` tool...'' w;
          w2 = say E sid Tool
                 (renderToolMessage ''read_file'' (fsPath (document R)) (snippet (contextOf R))) w1
      in case attemptLoop R maxAttempts 0 [] None None w2 of
           (Inl err, w3) \<Rightarrow> (Inl err, w3)
         | (Inr (None, approval), w3) \<Rightarrow> (Inl ''No fix proposal was generated.'', w3)
         | (Inr (Some proposal, approval), w3) \<Rightarrow>
             (case (case approval of None \<Rightarrow> None
                    | Some a \<Rightarrow> if a_decision a = Approve then Some a else None) of
                None \<Rightarrow>
                  (Inr (),
                   setStatus E sid Completed
                     (say E sid Agent
                        ''[no entry] Approval agent could not sign off on a safe fix after 3 attempts. Please review the issue manually.''
                        w3))
              | Some a \<Rightarrow>
                  (let w4 = setStatus E sid Idle w3;
                       w5 = w4\<lparr>store := updateSessionMetadata E (store w4) sid
                               [(''fixProposal'', Some (raw proposal)),
                                (''approvalNotes'', Some (a_notes a))]\<rparr>;
                       w6 = w5\<lparr>notifications := notifications w5
                               @ [ShowInformation
                                    ''Code Guardian generated an approved fix. Do you want to apply it?''
                                    [APPLY_ACTION, ''Cancel'']]\<rparr>
                   in if userChoice \<noteq> Some APPLY_ACTION then
                        (Inr (),
                         setStatus E sid Completed
                           (say E sid Agent ''[pause] Fix application cancelled by user.'' w6))
                      else
                        (let w7 = say E sid Agent
                                    ''[writing hand] Applying changes with `write_file` tool...'' w6
                         in case applyFix applied (document R) (contextOf R)
                                   (replacement proposal) w7 of
                              (Inl err, w8) \<Rightarrow> (Inl err, w8)
                            | (Inr u, w8) \<Rightarrow>
                                (let w9 = say E sid Tool
                                            (renderToolMessage ''write_file''
                                               (fsPath (document R)) (replacement proposal)) w8;
                                     w10 = say E sid Agent
                                             ''[check mark] Fix applied. Please review and run your tests.''
                                             w9
                                 in (Inr (), setStatus E sid Completed w10))))))"

definition run ::
  "Env \<Rightarrow> (string \<Rightarrow> json option) \<Rightarrow> 'p ChatFn \<Rightarrow> string option \<Rightarrow> bool
     \<Rightarrow> TextDocument \<Rightarrow> Diagnostic \<Rightarrow> 'p World \<Rightarrow> 'p World" where
  "run E parse chat userChoice applied doc diag w =
     (let (m1, session) = createSession E (store w) Fix (Some (buildSessionTitle doc diag))
                            (Some [(''filePath'', Some (fsPath doc)),
                                   (''diagnosticCode'', d_code diag),
                                   (''vulnerabilityMessage'', Some (d_message diag))]);
          sid = s_id session;
          w1 = setStatus E sid Running (w\<lparr>store := m1, reveals := Suc (reveals w)\<rparr>);
          w2 = say E sid Agent
                 (''[rocket] Starting AI-assisted fix for **'' @ baseName doc @ ''** at line ''
                  @ showInt (d_startLine diag + 1) @ ''.'') w1;
          w3 = say E sid Agent (''[warning] Issue detected: '' @ d_message diag) w2;
          R = \<lparr>env = E, jsonOf = parse, chatOf = chat, document = doc, diagnostic = diag,
               contextOf = buildContext doc diag, sessionIdOf = sid\<rparr>
      in case runBody R userChoice applied w3 of
           (Inr u, w4) \<Rightarrow> w4
         | (Inl err, w4) \<Rightarrow>
             setStatus E sid Error
               (say E sid Agent (''[cross mark] Failed to complete the fix: '' @ err)
                  (w4\<lparr>console := console w4 @ [''FixAgent failed'']\<rparr>)))"

section \<open>Observations used to state the properties\<close>

text \<open>
  These are not operations of the store. \<open>sessionInvariant\<close> is the relation between
  the two fields that the store is meant to keep; \<open>typeAndInput\<close> projects a session
  to them; \<open>getMessage\<close> reads the message an update addresses, by the two lookups
  the operations perform (first session with the id, first message with the id);
  \<open>appendAll\<close> is a caller that delivers fragments in order, and \<open>clearPending\<close>
  is the update a completion callback sends.
\<close>

definition sessionInvariant :: "ChatSessionManager \<Rightarrow> bool" where
  "sessionInvariant m = list_all (\<lambda>s. allowUserInput s = (s_type s = Qa)) (sessions m)"

definition getMessage :: "ChatSessionManager \<Rightarrow> string \<Rightarrow> string \<Rightarrow> StoredChatMessage option" where
  "getMessage m sessionId messageId =
     (case getSession m sessionId of
        None \<Rightarrow> None
      | Some s \<Rightarrow> find (\<lambda>msg. m_id msg = messageId) (s_messages s))"

definition typeAndInput :: "ChatSession \<Rightarrow> ChatSessionType \<times> bool" where
  "typeAndInput s = (s_type s, allowUserInput s)"

definition appendAll ::
  "Env \<Rightarrow> ChatSessionManager \<Rightarrow> string \<Rightarrow> string \<Rightarrow> string list \<Rightarrow> ChatSessionManager" where
  "appendAll E m sessionId messageId fragments =
     foldl (\<lambda>acc fragment. fst (appendToMessage E acc sessionId messageId fragment)) m fragments"

definition clearPending :: MessageUpdates where
  "clearPending = \<lparr>u_content = None, u_pending = Some False, u_metadata = None\<rparr>"

text \<open>A small store for concrete instances: a fix session that is active and holds one
  pending assistant message, and a question-and-answer session.\<close>

definition exampleEnv :: Env where
  "exampleEnv = \<lparr>dateNow = (\<lambda>n. 1700 + n), randomId = (\<lambda>n. replicate (Suc n) CHR ''r''),
                  toLocaleString = (\<lambda>t. ''today'')\<rparr>"

definition exampleMessage :: StoredChatMessage where
  "exampleMessage = \<lparr>m_id = ''m1'', m_role = Assistant, m_content = ''ab'', m_createdAt = 5,
                      m_pending = Some True, m_metadata = None\<rparr>"

definition exampleFixSession :: ChatSession where
  "exampleFixSession = \<lparr>s_id = ''s1'', s_type = Fix, s_title = ''Fix a.ts:3'', s_createdAt = 4,
      s_updatedAt = 5, allowUserInput = False, s_status = Running,
      s_messages = [exampleMessage], s_metadata = None\<rparr>"

definition exampleQaSession :: ChatSession where
  "exampleQaSession = \<lparr>s_id = ''s2'', s_type = Qa, s_title = ''Questions'', s_createdAt = 1,
      s_updatedAt = 2, allowUserInput = True, s_status = Idle,
      s_messages = [], s_metadata = None\<rparr>"

definition exampleStore :: ChatSessionManager where
  "exampleStore = \<lparr>sessions = [exampleFixSession, exampleQaSession],
      activeSessionId = Some ''s1'', memento = [], fired = [], ticks = 0, draws = 0\<rparr>"

text \<open>
  The observations for the providers. \<open>tokensOf\<close> lists the fragments passed to
  \<open>onToken\<close>. \<open>callbackContract\<close> is the contract as the specification words it:
  \<open>onStart\<close>, then at least one \<open>onToken\<close>, then \<open>onComplete\<close> with the text that is
  returned, which is the concatenation of the fragments. \<open>callbackOrder\<close> is the same
  without "at least one": there is no fragment exactly when the text is empty.
  \<open>visible\<close> is what a caller of the stream can see: the text and the callback calls.
  \<open>completeLines\<close> are the lines of a body that end in a line feed.
\<close>

definition tokensOf :: "CallbackEvent list \<Rightarrow> string list" where
  "tokensOf evs = concat (map (\<lambda>e. case e of OnToken t \<Rightarrow> [t] | _ \<Rightarrow> []) evs)"

definition allCallbacks :: ChatStreamCallbacks where
  "allCallbacks = \<lparr>hasOnToken = True, hasOnStart = True, hasOnComplete = True\<rparr>"

definition callbackContract :: "ChatOutcome \<Rightarrow> bool" where
  "callbackContract outcome =
     (case result outcome of
        Inl e \<Rightarrow> False
      | Inr t \<Rightarrow>
          events outcome = [OnStart] @ map OnToken (tokensOf (events outcome)) @ [OnComplete t]
          \<and> tokensOf (events outcome) \<noteq> []
          \<and> concat (tokensOf (events outcome)) = t)"

definition callbackOrder :: "ChatOutcome \<Rightarrow> bool" where
  "callbackOrder outcome =
     (case result outcome of
        Inl e \<Rightarrow> False
      | Inr t \<Rightarrow>
          events outcome = [OnStart] @ map OnToken (tokensOf (events outcome)) @ [OnComplete t]
          \<and> (tokensOf (events outcome) = []) = (t = [])
          \<and> concat (tokensOf (events outcome)) = t)"

definition visible :: "StreamState \<Rightarrow> string \<times> CallbackEvent list" where
  "visible st = (fullText st, emitted st)"

definition completeLines :: "string \<Rightarrow> string list" where
  "completeLines s = butlast (splitLines s)"

definition payloadOf :: "string \<Rightarrow> string" where
  "payloadOf line = trim (drop 5 (trim line))"

definition emptyStream :: StreamState where
  "emptyStream = \<lparr>fullText = [], emitted = [], errors = []\<rparr>"

text \<open>
  The observations for the fix run. \<open>streamedText\<close> is the text the token callbacks of
  \<open>requestFix\<close> collect and \<open>proposedReplacement\<close> the replacement taken from it. A
  provider \<open>alwaysProposes\<close> when every call with the token callbacks returns and leaves
  a replacement that is not empty; it \<open>alwaysRejects\<close> when every call without
  callbacks returns a reply that reads as a rejection. \<open>headSession\<close> is the session at
  the head of the store, where \<open>createSession\<close> puts the one it makes.
\<close>

definition streamedText :: "CallbackEvent list \<Rightarrow> string" where
  "streamedText evs = concat (tokensOf evs)"

definition proposedReplacement :: "string \<Rightarrow> string" where
  "proposedReplacement full = (case extractCodeBlock full of Some b \<Rightarrow> b | None \<Rightarrow> trim full)"

definition alwaysProposes :: "'p ChatFn \<Rightarrow> bool" where
  "alwaysProposes chat \<longleftrightarrow>
     (\<forall>p msgs opts.
        (case result (fst (chat p msgs opts tokenCallbacks)) of
           Inl e \<Rightarrow> False
         | Inr t \<Rightarrow> proposedReplacement
                     (streamedText (events (fst (chat p msgs opts tokenCallbacks)))) \<noteq> []))"

definition alwaysRejects :: "(string \<Rightarrow> json option) \<Rightarrow> 'p ChatFn \<Rightarrow> bool" where
  "alwaysRejects parse chat \<longleftrightarrow>
     (\<forall>p msgs opts.
        (case result (fst (chat p msgs opts noCallbacks)) of
           Inl e \<Rightarrow> False
         | Inr t \<Rightarrow> a_decision (parseApprovalResponse parse t) = Reject))"

definition headSession :: "ChatSessionManager \<Rightarrow> ChatSession option" where
  "headSession m = (case sessions m of [] \<Rightarrow> None | s # _ \<Rightarrow> Some s)"

definition couldNotSignOff :: string where
  "couldNotSignOff = ''[no entry] Approval agent could not sign off on a safe fix after 3 attempts. Please review the issue manually.''"

text \<open>Concrete inputs: a provider that proposes and then rejects, a document, a
  diagnostic and a world with an empty store.\<close>

definition rejectingChat :: "nat ChatFn" where
  \<open>rejectingChat p msgs options cb =
     (if hasOnToken cb
      then (\<lparr>events = [OnToken ''safe'', OnToken ''Call()'', OnComplete ''safeCall()''],
             logged = [], result = Inr ''safeCall()''\<rparr>, Suc p)
      else (\<lparr>events = [], logged = [],
             result = Inr ''{"decision":"reject","notes":"still unsafe"}''\<rparr>, Suc p))\<close>

definition exampleDocument :: TextDocument where
  "exampleDocument = \<lparr>fileName = ''/w/a.ts'', baseName = ''a.ts'', fsPath = ''/w/a.ts'',
      languageId = ''typescript'', lineCount = 3, getText = (\<lambda>a b. ''eval(x)'')\<rparr>"

definition exampleDiagnostic :: Diagnostic where
  "exampleDiagnostic = \<lparr>d_startLine = 1, d_endLine = 1, d_message = ''eval is unsafe'',
      d_code = None\<rparr>"

definition emptyStore :: ChatSessionManager where
  "emptyStore = \<lparr>sessions = [], activeSessionId = None, memento = [], fired = [],
      ticks = 0, draws = 0\<rparr>"

definition exampleWorld :: "nat World" where
  "exampleWorld = \<lparr>store = emptyStore, service = 0, requests = [], notifications = [],
      console = [], edits = [], saves = 0, reveals = 0\<rparr>"

definition storeWorld :: "nat World" where
  "storeWorld = exampleWorld\<lparr>store := exampleStore\<rparr>"

definition emptyReply :: "HttpRequest \<Rightarrow> HttpResponse" where
  "emptyReply rq = \<lparr>ok = True, bodyText = [], bodyChunks = None, replyText = Some []\<rparr>"

definition textReply :: "HttpRequest \<Rightarrow> HttpResponse" where
  "textReply rq = \<lparr>ok = True, bodyText = [], bodyChunks = None,
                    replyText = Some ''Use a parameterised query.''\<rparr>"











text \<open>Concrete bodies for the streaming provider.\<close>

definition deltaFrame :: "string \<Rightarrow> string" where
  \<open>deltaFrame t = ''data: {"choices":[{"delta":{"content":"'' @ t @ ''"}}]}''\<close>

definition sentinelChunks :: "string list" where
  "sentinelChunks = [''data: [DONE]'' @ nl, deltaFrame ''x'' @ nl]"

definition sentinelThenDelta :: "HttpRequest \<Rightarrow> HttpResponse" where
  "sentinelThenDelta rq = \<lparr>ok = True, bodyText = [], bodyChunks = Some sentinelChunks,
                            replyText = None\<rparr>"

definition brokenFrame :: string where
  "brokenFrame = ''data: {broken''"

text \<open>
  The calls of \<open>chat\<close> a run makes are told apart by their callbacks: \<open>requestFix\<close>
  passes the token callbacks, \<open>reviewFix\<close> passes none.
\<close>

definition proposeCalls :: "ChatRequest list \<Rightarrow> nat" where
  "proposeCalls rs = length (filter (\<lambda>q. q_callbacks q = tokenCallbacks) rs)"

definition reviewCalls :: "ChatRequest list \<Rightarrow> nat" where
  "reviewCalls rs = length (filter (\<lambda>q. q_callbacks q = noCallbacks) rs)"

definition headId :: "ChatSessionManager \<Rightarrow> string option" where
  "headId m = map_option s_id (headSession m)"

section \<open>Verification: the session store\<close>

lemma findIndex_SomeD:
  "findIndex p xs = Some i \<Longrightarrow> i < length xs \<and> p (xs ! i) \<and> (\<forall>j<i. \<not> p (xs ! j))"
proof (induction xs arbitrary: i)
  case Nil
  then show ?case by simp
next
  case (Cons x xs)
  show ?case
  proof (cases "p x")
    case True
    with Cons.prems show ?thesis by simp
  next
    case False
    with Cons.prems obtain k where k: "findIndex p xs = Some k" "i = Suc k" by auto
    from Cons.IH[OF k(1)] False k(2) show ?thesis
      by (auto simp: nth_Cons split: nat.splits)
  qed
qed

lemma findIndex_None_iff: "findIndex p xs = None \<longleftrightarrow> (\<forall>x\<in>set xs. \<not> p x)"
  by (induction xs) auto

lemma find_findIndex:
  "find p xs = (case findIndex p xs of None \<Rightarrow> None | Some i \<Rightarrow> Some (xs ! i))"
  by (induction xs) (auto split: option.splits)

lemma findIndex_update:
  "findIndex p xs = Some i \<Longrightarrow> p y \<Longrightarrow> findIndex p (xs[i := y]) = Some i"
proof (induction xs arbitrary: i)
  case Nil
  then show ?case by simp
next
  case (Cons x xs)
  then show ?case by (cases "p x") (auto split: nat.splits)
qed

lemma splice_update:
  "i < length xs \<Longrightarrow> take i xs @ y # drop (Suc i) xs = xs[i := y]"
  by (simp add: upd_conv_take_nth_drop)

lemma map_update_same: "i < length xs \<Longrightarrow> f y = f (xs ! i) \<Longrightarrow> map f (xs[i := y]) = map f xs"
  by (simp add: map_update list_update_same_conv)

lemmas store_defs = now_def freshId_def persist_def emitState_def getState_def

lemma sessions_setActive: "sessions (setActiveSession m x) = sessions m"
  by (simp add: setActiveSession_def store_defs)

lemma sessions_addMessage:
  "map typeAndInput (sessions (fst (addMessage E m sid msg))) = map typeAndInput (sessions m)"
  by (auto simp: addMessage_def store_defs typeAndInput_def Let_def map_update_same
      split: option.splits prod.splits dest!: findIndex_SomeD)

lemma sessions_updateMessage:
  "map typeAndInput (sessions (fst (updateMessage E m sid mid u))) = map typeAndInput (sessions m)"
  by (auto simp: updateMessage_def store_defs typeAndInput_def Let_def map_update_same
      split: option.splits prod.splits dest!: findIndex_SomeD)

lemma sessions_appendToMessage:
  "map typeAndInput (sessions (fst (appendToMessage E m sid mid f))) = map typeAndInput (sessions m)"
  by (auto simp: appendToMessage_def store_defs typeAndInput_def Let_def map_update_same
      split: option.splits prod.splits dest!: findIndex_SomeD)

lemma sessions_updateSessionStatus:
  "map typeAndInput (sessions (updateSessionStatus E m sid st)) = map typeAndInput (sessions m)"
  by (auto simp: updateSessionStatus_def store_defs typeAndInput_def Let_def map_update_same
      split: option.splits prod.splits dest!: findIndex_SomeD)

lemma sessions_updateSessionMetadata:
  "map typeAndInput (sessions (updateSessionMetadata E m sid md)) = map typeAndInput (sessions m)"
  by (auto simp: updateSessionMetadata_def store_defs typeAndInput_def Let_def map_update_same
      split: option.splits prod.splits dest!: findIndex_SomeD)

lemma sessions_renameSession:
  "map typeAndInput (sessions (renameSession E m sid t)) = map typeAndInput (sessions m)"
  by (auto simp: renameSession_def store_defs typeAndInput_def Let_def map_update_same
      split: option.splits prod.splits dest!: findIndex_SomeD)

lemma sessions_deleteSession:
  "set (sessions (deleteSession m sid)) \<subseteq> set (sessions m)"
  by (auto simp: deleteSession_def store_defs Let_def
      split: option.splits dest: in_set_takeD in_set_dropD)

lemma sessions_createSession:
  "sessions (fst (createSession E m ty title md)) = snd (createSession E m ty title md) # sessions m
   \<and> s_type (snd (createSession E m ty title md)) = ty
   \<and> allowUserInput (snd (createSession E m ty title md)) = (ty = Qa)"
  by (simp add: createSession_def store_defs Let_def split: prod.splits)

lemma sessionInvariant_map:
  "sessionInvariant m \<longleftrightarrow> list_all (\<lambda>p. snd p = (fst p = Qa)) (map typeAndInput (sessions m))"
  by (simp add: sessionInvariant_def typeAndInput_def list_all_iff)

lemma getMessage_appendToMessage:
  assumes "getMessage m sid mid = Some msg"
  shows "getMessage (fst (appendToMessage E m sid mid f)) sid mid
           = Some (msg\<lparr>m_content := m_content msg @ f\<rparr>)"
proof -
  from assms obtain si where si: "findIndex (\<lambda>s. s_id s = sid) (sessions m) = Some si"
    by (auto simp: getMessage_def getSession_def find_findIndex split: option.splits)
  let ?s = "sessions m ! si"
  from assms si obtain mi where mi: "findIndex (\<lambda>x. m_id x = mid) (s_messages ?s) = Some mi"
    and msg: "msg = s_messages ?s ! mi"
    by (auto simp: getMessage_def getSession_def find_findIndex split: option.splits)
  note a = findIndex_SomeD[OF si] and b = findIndex_SomeD[OF mi]
  let ?u = "msg\<lparr>m_content := m_content msg @ f\<rparr>"
  let ?s' = "?s\<lparr>s_messages := (s_messages ?s)[mi := ?u], s_updatedAt := dateNow E (ticks m)\<rparr>"
  have sess: "sessions (fst (appendToMessage E m sid mid f)) = (sessions m)[si := ?s']"
    using si mi msg b by (simp add: appendToMessage_def store_defs Let_def splice_update)
  have f1: "findIndex (\<lambda>s. s_id s = sid) ((sessions m)[si := ?s']) = Some si"
    using si a by (intro findIndex_update) auto
  have f2: "findIndex (\<lambda>x. m_id x = mid) ((s_messages ?s)[mi := ?u]) = Some mi"
    using mi b msg by (intro findIndex_update) auto
  show ?thesis
    using a b f1 f2 by (simp add: getMessage_def getSession_def find_findIndex sess)
qed

lemma getMessage_updateMessage:
  assumes "getMessage m sid mid = Some msg"
  shows "getMessage (fst (updateMessage E m sid mid u)) sid mid = Some (applyUpdates msg u)"
proof -
  from assms obtain si where si: "findIndex (\<lambda>s. s_id s = sid) (sessions m) = Some si"
    by (auto simp: getMessage_def getSession_def find_findIndex split: option.splits)
  let ?s = "sessions m ! si"
  from assms si obtain mi where mi: "findIndex (\<lambda>x. m_id x = mid) (s_messages ?s) = Some mi"
    and msg: "msg = s_messages ?s ! mi"
    by (auto simp: getMessage_def getSession_def find_findIndex split: option.splits)
  note a = findIndex_SomeD[OF si] and b = findIndex_SomeD[OF mi]
  let ?u = "applyUpdates msg u"
  let ?s' = "?s\<lparr>s_messages := (s_messages ?s)[mi := ?u], s_updatedAt := dateNow E (ticks m)\<rparr>"
  have sess: "sessions (fst (updateMessage E m sid mid u)) = (sessions m)[si := ?s']"
    using si mi msg b by (simp add: updateMessage_def store_defs Let_def splice_update)
  have f1: "findIndex (\<lambda>s. s_id s = sid) ((sessions m)[si := ?s']) = Some si"
    using si a by (intro findIndex_update) auto
  have f2: "findIndex (\<lambda>x. m_id x = mid) ((s_messages ?s)[mi := ?u]) = Some mi"
    using mi b msg by (intro findIndex_update) (auto simp: applyUpdates_def)
  show ?thesis
    using a b f1 f2 by (simp add: getMessage_def getSession_def find_findIndex sess)
qed

lemma getMessage_appendAll:
  "getMessage m sid mid = Some msg \<Longrightarrow>
   getMessage (appendAll E m sid mid fs) sid mid
     = Some (msg\<lparr>m_content := m_content msg @ concat fs\<rparr>)"
proof (induction fs arbitrary: m msg)
  case Nil
  then show ?case by (simp add: appendAll_def)
next
  case (Cons f fs)
  have step: "getMessage (fst (appendToMessage E m sid mid f)) sid mid
                = Some (msg\<lparr>m_content := m_content msg @ f\<rparr>)"
    by (rule getMessage_appendToMessage[OF Cons.prems])
  from Cons.IH[OF step] show ?case by (simp add: appendAll_def)
qed

lemma findIndex_Some_ex: "findIndex p xs = Some i \<Longrightarrow> \<exists>x\<in>set xs. p x"
  using findIndex_None_iff[of p xs] by auto

lemma getMessage_None_iff:
  "getMessage m sid mid = None \<longleftrightarrow>
     (\<forall>s\<in>set (sessions m). s_id s \<noteq> sid)
     \<or> (\<exists>s. getSession m sid = Some s \<and> (\<forall>x\<in>set (s_messages s). m_id x \<noteq> mid))"
  by (auto simp: getMessage_def getSession_def find_findIndex findIndex_None_iff
      split: option.splits dest: findIndex_Some_ex)

text \<open>
  Loading keeps the relation for every stored session that lacks \<open>allowUserInput\<close> or
  has it as \<open>createSession\<close> wrote it.
\<close>

lemma loadSessions_invariant:
  assumes "list_all (\<lambda>p. case p_allowUserInput p of None \<Rightarrow> True
                         | Some b \<Rightarrow> b = (p_type p = Qa)) stored"
  shows "list_all (\<lambda>s. allowUserInput s = (s_type s = Qa)) (loadSessions stored)"
  using assms by (auto simp: loadSessions_def list_all_iff split: option.splits)

lemmas example_defs = exampleEnv_def exampleMessage_def exampleFixSession_def
  exampleQaSession_def exampleStore_def

text \<open>
  Claim C3. If every session of the store satisfies \<open>allowUserInput = (type = qa)\<close>, then
  so does every session after each operation of the store; the session \<open>createSession\<close>
  returns has the requested type and satisfies the relation. No operation writes the
  two fields: the operations on a message or a session leave the type and
  \<open>allowUserInput\<close> of every session, in order, as they were; \<open>createSession\<close> puts
  the new session before the old ones, \<open>deleteSession\<close> only removes, \<open>setActiveSession\<close>
  leaves the list as it was and \<open>clearAll\<close> empties it.
\<close>

theorem allowUserInput_invariant:
  assumes "sessionInvariant m"
  shows "allowUserInput (snd (createSession E m ty title md)) = (ty = Qa)
       \<and> s_type (snd (createSession E m ty title md)) = ty
       \<and> sessionInvariant (fst (createSession E m ty title md))
       \<and> sessionInvariant (deleteSession m sid)
       \<and> sessionInvariant (setActiveSession m a)
       \<and> sessionInvariant (fst (addMessage E m sid msg))
       \<and> sessionInvariant (fst (updateMessage E m sid mid u))
       \<and> sessionInvariant (fst (appendToMessage E m sid mid f))
       \<and> sessionInvariant (updateSessionStatus E m sid st)
       \<and> sessionInvariant (updateSessionMetadata E m sid kvs)
       \<and> sessionInvariant (renameSession E m sid t)
       \<and> sessionInvariant (clearAll m)
       \<and> map typeAndInput (sessions (fst (addMessage E m sid msg))) = map typeAndInput (sessions m)
       \<and> map typeAndInput (sessions (fst (updateMessage E m sid mid u)))
           = map typeAndInput (sessions m)
       \<and> map typeAndInput (sessions (fst (appendToMessage E m sid mid f)))
           = map typeAndInput (sessions m)
       \<and> map typeAndInput (sessions (updateSessionStatus E m sid st))
           = map typeAndInput (sessions m)
       \<and> map typeAndInput (sessions (updateSessionMetadata E m sid kvs))
           = map typeAndInput (sessions m)
       \<and> map typeAndInput (sessions (renameSession E m sid t)) = map typeAndInput (sessions m)
       \<and> sessions (setActiveSession m a) = sessions m
       \<and> set (sessions (deleteSession m sid)) \<subseteq> set (sessions m)
       \<and> sessions (fst (createSession E m ty title md))
           = snd (createSession E m ty title md) # sessions m
       \<and> sessions (clearAll m) = []"
proof -
  have del: "sessionInvariant (deleteSession m sid)"
    using assms sessions_deleteSession[of m sid]
    by (auto simp: sessionInvariant_def list_all_iff)
  have cre: "sessionInvariant (fst (createSession E m ty title md))"
    using assms sessions_createSession[of E m ty title md]
    by (simp add: sessionInvariant_def)
  have clr: "sessionInvariant (clearAll m)"
    by (simp add: sessionInvariant_def clearAll_def store_defs)
  have act: "sessionInvariant (setActiveSession m a)"
    using assms by (simp add: sessionInvariant_def sessions_setActive)
  from assms have i: "list_all (\<lambda>p. snd p = (fst p = Qa)) (map typeAndInput (sessions m))"
    by (simp only: sessionInvariant_map)
  from i have "sessionInvariant (fst (addMessage E m sid msg))"
    "sessionInvariant (fst (updateMessage E m sid mid u))"
    "sessionInvariant (fst (appendToMessage E m sid mid f))"
    "sessionInvariant (updateSessionStatus E m sid st)"
    "sessionInvariant (updateSessionMetadata E m sid kvs)"
    "sessionInvariant (renameSession E m sid t)"
    by (simp_all only: sessionInvariant_map sessions_addMessage sessions_updateMessage
        sessions_appendToMessage sessions_updateSessionStatus sessions_updateSessionMetadata
        sessions_renameSession)
  with del cre clr act sessions_createSession[of E m ty title md]
  have inv: "allowUserInput (snd (createSession E m ty title md)) = (ty = Qa)
       \<and> s_type (snd (createSession E m ty title md)) = ty
       \<and> sessionInvariant (fst (createSession E m ty title md))
       \<and> sessionInvariant (deleteSession m sid)
       \<and> sessionInvariant (setActiveSession m a)
       \<and> sessionInvariant (fst (addMessage E m sid msg))
       \<and> sessionInvariant (fst (updateMessage E m sid mid u))
       \<and> sessionInvariant (fst (appendToMessage E m sid mid f))
       \<and> sessionInvariant (updateSessionStatus E m sid st)
       \<and> sessionInvariant (updateSessionMetadata E m sid kvs)
       \<and> sessionInvariant (renameSession E m sid t)
       \<and> sessionInvariant (clearAll m)"
    by simp
  have "sessions (clearAll m) = []"
    by (simp add: clearAll_def store_defs)
  with inv sessions_addMessage[of E m sid msg] sessions_updateMessage[of E m sid mid u]
    sessions_appendToMessage[of E m sid mid f] sessions_updateSessionStatus[of E m sid st]
    sessions_updateSessionMetadata[of E m sid kvs] sessions_renameSession[of E m sid t]
    sessions_setActive[of m a] sessions_deleteSession[of m sid]
    sessions_createSession[of E m ty title md]
  show ?thesis by blast
qed

theorem allowUserInput_invariant_witness:
  "sessionInvariant exampleStore
   \<and> allowUserInput (snd (createSession exampleEnv exampleStore Fix None None)) = (Fix = Qa)
   \<and> sessionInvariant (fst (createSession exampleEnv exampleStore Fix None None))
   \<and> sessionInvariant (fst (appendToMessage exampleEnv exampleStore ''s1'' ''m1'' ''c''))
   \<and> sessionInvariant (deleteSession exampleStore ''s2'')"
proof -
  have h: "sessionInvariant exampleStore"
    by (simp add: sessionInvariant_def example_defs)
  from allowUserInput_invariant[OF h, where E = exampleEnv and ty = Fix and title = None
      and md = None and sid = "''s2''"]
    allowUserInput_invariant[OF h, where E = exampleEnv and sid = "''s1''" and mid = "''m1''"
      and f = "''c''"]
  show ?thesis using h by blast
qed

text \<open>
  Claim C4. For a message with content \<open>c\<close> that the two lookups find, appending the
  fragments \<open>f1 .. fN\<close> in order leaves it with content \<open>c @ f1 @ ... @ fN\<close>, and the
  update that clears \<open>pending\<close> afterwards changes the \<open>pending\<close> field only.
\<close>

theorem streamed_content_is_concatenation:
  assumes "getMessage m sid mid = Some msg"
  shows "getMessage (appendAll E m sid mid fs) sid mid
           = Some (msg\<lparr>m_content := m_content msg @ concat fs\<rparr>)
       \<and> getMessage (fst (updateMessage E (appendAll E m sid mid fs) sid mid clearPending)) sid mid
           = Some (msg\<lparr>m_content := m_content msg @ concat fs, m_pending := Some False\<rparr>)"
proof -
  have a: "getMessage (appendAll E m sid mid fs) sid mid
             = Some (msg\<lparr>m_content := m_content msg @ concat fs\<rparr>)"
    by (rule getMessage_appendAll[OF assms])
  from getMessage_updateMessage[OF a, of E clearPending] a show ?thesis
    by (simp add: applyUpdates_def clearPending_def)
qed

theorem streamed_content_is_concatenation_witness:
  "getMessage exampleStore ''s1'' ''m1'' = Some exampleMessage
   \<and> getMessage (fst (updateMessage exampleEnv
          (appendAll exampleEnv exampleStore ''s1'' ''m1'' [''c'', [], ''def''])
          ''s1'' ''m1'' clearPending)) ''s1'' ''m1''
       = Some (exampleMessage\<lparr>m_content := ''abcdef'', m_pending := Some False\<rparr>)"
proof -
  have h: "getMessage exampleStore ''s1'' ''m1'' = Some exampleMessage"
    by (simp add: getMessage_def getSession_def example_defs)
  from streamed_content_is_concatenation[OF h, of exampleEnv "[''c'', [], ''def'']"]
  show ?thesis using h by (simp add: exampleMessage_def)
qed

text \<open>
  Claim C9. Deleting an existing session that is the active one sets the active id to
  none when no session remains and to the id of a remaining session otherwise;
  deleting an existing session that is not the active one leaves the active id as it
  was. (The remaining session chosen is the first of the list.)
\<close>

theorem deleteSession_active:
  assumes "sid \<in> s_id ` set (sessions m)"
  shows "(if activeSessionId m = Some sid
          then (if sessions (deleteSession m sid) = []
                then activeSessionId (deleteSession m sid) = None
                else activeSessionId (deleteSession m sid)
                       = Some (s_id (hd (sessions (deleteSession m sid))))
                   \<and> activeSessionId (deleteSession m sid)
                       \<in> Some ` s_id ` set (sessions (deleteSession m sid)))
          else activeSessionId (deleteSession m sid) = activeSessionId m)
       \<and> length (sessions (deleteSession m sid)) + 1 = length (sessions m)
       \<and> set (sessions (deleteSession m sid)) \<subseteq> set (sessions m)"
proof -
  from assms obtain i where i: "findIndex (\<lambda>s. s_id s = sid) (sessions m) = Some i"
    by (cases "findIndex (\<lambda>s. s_id s = sid) (sessions m)") (auto simp: findIndex_None_iff)
  note b = findIndex_SomeD[OF i]
  define rest where "rest = take i (sessions m) @ drop (Suc i) (sessions m)"
  have S: "sessions (deleteSession m sid) = rest"
    using i by (simp add: deleteSession_def store_defs Let_def rest_def)
  have A: "activeSessionId (deleteSession m sid)
             = (if activeSessionId m = Some sid
                then (case rest of [] \<Rightarrow> None | s # _ \<Rightarrow> Some (s_id s))
                else activeSessionId m)"
    using i by (simp add: deleteSession_def store_defs Let_def rest_def)
  have L: "length rest + 1 = length (sessions m)"
    using b unfolding rest_def by (cases "sessions m") auto
  have U: "set rest \<subseteq> set (sessions m)"
    unfolding rest_def by (auto dest: in_set_takeD in_set_dropD)
  show ?thesis
    unfolding S A using L U by (cases rest) auto
qed

theorem deleteSession_active_witness:
  "''s1'' \<in> s_id ` set (sessions exampleStore)
   \<and> activeSessionId (deleteSession exampleStore ''s1'') = Some ''s2''
   \<and> ''s2'' \<in> s_id ` set (sessions exampleStore)
   \<and> activeSessionId (deleteSession exampleStore ''s2'') = Some ''s1''
   \<and> activeSessionId (deleteSession (deleteSession exampleStore ''s2'') ''s1'') = None"
proof -
  have h1: "''s1'' \<in> s_id ` set (sessions exampleStore)"
    and h2: "''s2'' \<in> s_id ` set (sessions exampleStore)"
    by (simp_all add: example_defs)
  have d2: "sessions (deleteSession exampleStore ''s2'') = [exampleFixSession]"
    "activeSessionId (deleteSession exampleStore ''s2'') = Some ''s1''"
    by (simp_all add: deleteSession_def store_defs example_defs Let_def)
  have h3: "''s1'' \<in> s_id ` set (sessions (deleteSession exampleStore ''s2''))"
    by (simp add: d2 exampleFixSession_def)
  have a: "activeSessionId (deleteSession exampleStore ''s1'') = Some ''s2''"
    using deleteSession_active[OF h1]
    by (simp add: deleteSession_def store_defs example_defs Let_def)
  have b: "activeSessionId (deleteSession exampleStore ''s2'') = Some ''s1''"
    using deleteSession_active[OF h2] by (simp add: example_defs)
  have c: "activeSessionId (deleteSession (deleteSession exampleStore ''s2'') ''s1'') = None"
    using deleteSession_active[OF h3] d2 by (simp add: exampleFixSession_def split: if_splits)
  from h1 h2 a b c show ?thesis by simp
qed

text \<open>
  Claim C10. When no stored session has the session id, or the first session with
  that id holds no message with the message id, \<open>updateMessage\<close> and
  \<open>appendToMessage\<close> return \<open>undefined\<close> and leave the manager as it was: sessions,
  messages, timestamps, active id, persisted value, and the list of snapshots
  delivered to observers.
\<close>

theorem unknown_target_is_noop:
  assumes "(\<forall>s\<in>set (sessions m). s_id s \<noteq> sid)
           \<or> (\<exists>s. getSession m sid = Some s \<and> (\<forall>x\<in>set (s_messages s). m_id x \<noteq> mid))"
  shows "updateMessage E m sid mid u = (m, None) \<and> appendToMessage E m sid mid f = (m, None)"
proof -
  from assms have "getMessage m sid mid = None"
    by (simp only: getMessage_None_iff)
  then show ?thesis
    by (auto simp: getMessage_def getSession_def find_findIndex updateMessage_def
        appendToMessage_def Let_def split: option.splits)
qed

theorem unknown_target_is_noop_witness:
  "''zz'' \<notin> s_id ` set (sessions exampleStore)
   \<and> updateMessage exampleEnv exampleStore ''zz'' ''m1'' clearPending = (exampleStore, None)
   \<and> appendToMessage exampleEnv exampleStore ''zz'' ''m1'' ''x'' = (exampleStore, None)
   \<and> (\<exists>s. getSession exampleStore ''s1'' = Some s \<and> (\<forall>x\<in>set (s_messages s). m_id x \<noteq> ''m9''))
   \<and> updateMessage exampleEnv exampleStore ''s1'' ''m9'' clearPending = (exampleStore, None)
   \<and> appendToMessage exampleEnv exampleStore ''s1'' ''m9'' ''x'' = (exampleStore, None)"
proof -
  have h1: "\<forall>s\<in>set (sessions exampleStore). s_id s \<noteq> ''zz''"
    by (simp add: example_defs)
  have h2: "\<exists>s. getSession exampleStore ''s1'' = Some s
              \<and> (\<forall>x\<in>set (s_messages s). m_id x \<noteq> ''m9'')"
    by (simp add: getSession_def example_defs)
  from unknown_target_is_noop[OF disjI1[OF h1], where mid = "''m1''" and E = exampleEnv
         and u = clearPending and f = "''x''"]
       unknown_target_is_noop[OF disjI2[OF h2], where E = exampleEnv
         and u = clearPending and f = "''x''"]
       h1 h2
  show ?thesis by auto
qed

section \<open>Verification: the providers\<close>

lemma concat_chunkFrom: "concat (chunkFrom i t) = drop i t"
proof (induction i t rule: chunkFrom.induct)
  case (1 i t)
  show ?case
  proof (cases "i < length t")
    case True
    have "concat (chunkFrom i t) = take 20 (drop i t) @ concat (chunkFrom (i + 20) t)"
      using True by (subst chunkFrom.simps) simp
    also have "\<dots> = take 20 (drop i t) @ drop 20 (drop i t)"
      using 1[OF True] by (simp add: add.commute)
    also have "\<dots> = drop i t"
      by (rule append_take_drop_id)
    finally show ?thesis .
  next
    case False
    then show ?thesis by (subst chunkFrom.simps) simp
  qed
qed

lemma chunkFrom_empty_iff: "chunkFrom i t = [] \<longleftrightarrow> length t \<le> i"
  by (subst chunkFrom.simps) auto

lemma concat_chunkText: "concat (chunkText t) = t"
  by (simp add: chunkText_def concat_chunkFrom)

lemma chunkText_empty_iff: "chunkText t = [] \<longleftrightarrow> t = []"
  by (simp add: chunkText_def chunkFrom_empty_iff)

lemma slices_step:
  fixes i :: nat and n :: nat
  assumes "i < n"
  shows "(n - i + 19) div 20 = Suc ((n - (i + 20) + 19) div 20)"
proof (cases "i + 20 \<le> n")
  case True
  then have "n - i + 19 = (n - (i + 20) + 19) + 20" by simp
  then show ?thesis by (simp only: div_add_self2) 
next
  case False
  then have a: "n - (i + 20) = 0" by simp
  from False assms have "20 \<le> n - i + 19" "n - i + 19 < 40" by simp_all
  then have "(n - i + 19) div 20 = 1"
    by (simp add: div_nat_eqI)
  then show ?thesis by (simp add: a)
qed

lemma upt_shift: "map f [0..<Suc m] = f 0 # map (\<lambda>k. f (Suc k)) [0..<m]"
proof -
  have "[0..<Suc m] = 0 # map Suc [0..<m]"
    by (simp only: map_Suc_upt) (simp add: upt_conv_Cons del: upt_Suc)
  then show ?thesis by (simp only: list.map map_map comp_def)
qed

lemma chunkFrom_slices:
  "chunkFrom i t
     = map (\<lambda>k. take 20 (drop (i + 20 * k) t)) [0..<(length t - i + 19) div 20]"
proof (induction i t rule: chunkFrom.induct)
  case (1 i t)
  show ?case
  proof (cases "i < length t")
    case True
    define m where "m = (length t - (i + 20) + 19) div 20"
    have n: "(length t - i + 19) div 20 = Suc m"
      unfolding m_def using True by (rule slices_step)
    have ih: "chunkFrom (i + 20) t
        = map (\<lambda>k. take 20 (drop (i + 20 + 20 * k) t)) [0..<m]"
      unfolding m_def using True by (rule 1)
    have e: "\<And>k. i + 20 * Suc k = i + 20 + 20 * k"
      by simp
    have "chunkFrom i t = take 20 (drop i t) # chunkFrom (i + 20) t"
      using True by (subst chunkFrom.simps) simp
    also have "\<dots> = map (\<lambda>k. take 20 (drop (i + 20 * k) t)) [0..<Suc m]"
      unfolding upt_shift[of "\<lambda>k. take 20 (drop (i + 20 * k) t)" m] e ih by simp
    finally show ?thesis by (simp only: n)
  next
    case False
    then have "(length t - i + 19) div 20 = 0" by simp
    moreover have "chunkFrom i t = []"
      using False by (subst chunkFrom.simps) simp
    ultimately show ?thesis by simp
  qed
qed

lemma chunkText_slices:
  "chunkText t = map (\<lambda>k. take 20 (drop (20 * k) t)) [0..<(length t + 19) div 20]"
  using chunkFrom_slices[of 0 t] by (simp add: chunkText_def)

lemma tokensOf_append: "tokensOf (xs @ ys) = tokensOf xs @ tokensOf ys"
  by (simp add: tokensOf_def)

lemma tokensOf_map_OnToken: "tokensOf (map OnToken ts) = ts"
  by (induction ts) (simp_all add: tokensOf_def)

lemma tokensOf_simps:
  "tokensOf [] = []" "tokensOf (OnStart # es) = tokensOf es"
  "tokensOf (OnComplete t # es) = tokensOf es" "tokensOf (OnToken t # es) = t # tokensOf es"
  by (simp_all add: tokensOf_def)

lemma nonstreaming_events:
  "callbackOrder \<lparr>events = [OnStart] @ (if t \<noteq> [] then map OnToken (chunkText t) else [])
                             @ [OnComplete t], logged = lg, result = Inr t\<rparr>"
  by (simp add: callbackOrder_def tokensOf_append tokensOf_map_OnToken tokensOf_simps
      concat_chunkText chunkText_empty_iff)

lemma splitLines_nonempty: "splitLines s \<noteq> []"
  by (induction s) (auto split: list.splits)

lemma splitLines_append:
  "splitLines (a @ b) = butlast (splitLines a) @ splitLines (last (splitLines a) @ b)"
proof (induction a)
  case Nil
  then show ?case by simp
next
  case (Cons c a)
  show ?case
  proof (cases "c = CHR 0x0A")
    case True
    then show ?thesis using Cons splitLines_nonempty[of a] by simp
  next
    case False
    obtain l ls where a: "splitLines a = l # ls"
      using splitLines_nonempty[of a] by (cases "splitLines a") auto
    show ?thesis
    proof (cases ls)
      case Nil
      with a False Cons show ?thesis by simp
    next
      case (Cons l' ls')
      with a False Cons.IH show ?thesis by (simp split: list.splits)
    qed
  qed
qed

lemma last_splitLines_no_newline: "CHR 0x0A \<notin> set (last (splitLines s))"
proof (induction s)
  case Nil
  then show ?case by simp
next
  case (Cons c s)
  obtain l ls where a: "splitLines s = l # ls"
    using splitLines_nonempty[of s] by (cases "splitLines s") auto
  with Cons show ?case by (cases ls) auto
qed

lemma splitLines_no_newline: "CHR 0x0A \<notin> set s \<Longrightarrow> splitLines s = [s]"
  by (induction s) auto

lemma completeLines_append:
  "completeLines (a @ b) = completeLines a @ completeLines (last (splitLines a) @ b)"
  unfolding completeLines_def
  by (subst splitLines_append) (simp add: butlast_append splitLines_nonempty)

lemma readLoop_lines:
  "CHR 0x0A \<notin> set buffer \<Longrightarrow>
   readLoop parse buffer st chunks
     = foldl (processLine parse) st (completeLines (buffer @ concat chunks))"
proof (induction chunks arbitrary: buffer st)
  case Nil
  then show ?case by (simp add: completeLines_def splitLines_no_newline)
next
  case (Cons v rest)
  let ?L = "splitLines (buffer @ v)"
  have nl: "CHR 0x0A \<notin> set (last ?L)" by (rule last_splitLines_no_newline)
  have "readLoop parse buffer st (v # rest)
          = readLoop parse (last ?L) (foldl (processLine parse) st (butlast ?L)) rest"
    by (simp add: Let_def)
  also have "\<dots> = foldl (processLine parse) (foldl (processLine parse) st (butlast ?L))
                       (completeLines (last ?L @ concat rest))"
    by (rule Cons.IH[OF nl])
  also have "\<dots> = foldl (processLine parse) st
                       (completeLines (buffer @ v) @ completeLines (last ?L @ concat rest))"
    by (simp add: completeLines_def)
  also have "completeLines (buffer @ v) @ completeLines (last ?L @ concat rest)
               = completeLines ((buffer @ v) @ concat rest)"
    by (rule completeLines_append[symmetric])
  finally show ?case by simp
qed

lemma splitLines_line:
  "CHR 0x0A \<notin> set l \<Longrightarrow> splitLines (l @ CHR 0x0A # post) = l # splitLines post"
  by (induction l) auto

lemma completeLines_line:
  "CHR 0x0A \<notin> set l \<Longrightarrow> completeLines (l @ CHR 0x0A # post) = l # completeLines post"
  by (simp add: completeLines_def splitLines_line splitLines_nonempty)

lemma last_splitLines_terminated:
  "last (splitLines (p @ [CHR 0x0A])) = []"
proof -
  have "splitLines (p @ [CHR 0x0A])
          = butlast (splitLines p) @ splitLines (last (splitLines p) @ [CHR 0x0A])"
    by (rule splitLines_append)
  also have "splitLines (last (splitLines p) @ [CHR 0x0A]) = [last (splitLines p), []]"
    using splitLines_line[OF last_splitLines_no_newline, of p "[]"] by simp
  finally show ?thesis by simp
qed

lemma completeLines_at_boundary:
  assumes "pre = [] \<or> last pre = CHR 0x0A"
  shows "completeLines (pre @ b) = completeLines pre @ completeLines b"
proof (cases "pre = []")
  case True
  then show ?thesis by (simp add: completeLines_def)
next
  case False
  with assms obtain p where p: "pre = p @ [CHR 0x0A]"
    by (metis append_butlast_last_id)
  have "last (splitLines pre) = []"
    unfolding p by (rule last_splitLines_terminated)
  then show ?thesis
    using completeLines_append[of pre b] by simp
qed

lemma processLine_effect:
  "\<exists>t es lg. \<forall>st. processLine parse st l
      = st\<lparr>fullText := fullText st @ t, emitted := emitted st @ es, errors := errors st @ lg\<rparr>"
proof (cases "trim l = [] \<or> \<not> startsWith (trim l) ''data:'' \<or> payloadOf l = []
              \<or> payloadOf l = ''[DONE]''")
  case True
  then have "\<forall>st. processLine parse st l = st"
    by (auto simp: processLine_def payloadOf_def Let_def)
  then have "\<forall>st. processLine parse st l
      = st\<lparr>fullText := fullText st @ [], emitted := emitted st @ [], errors := errors st @ []\<rparr>"
    by simp
  then show ?thesis by blast
next
  case False
  then have unf: "\<And>st. processLine parse st l =
     (case parse (payloadOf l) of
              None \<Rightarrow> st\<lparr>errors := errors st @ [''Failed to parse OpenAI stream payload'']\<rparr>
            | Some JNull \<Rightarrow>
                st\<lparr>errors := errors st @ [''Failed to parse OpenAI stream payload'']\<rparr>
            | Some json \<Rightarrow>
                (let delta = optProp (optProp (optIndex0 (optProp (Some json) ''choices''))
                                        ''delta'') ''content''
                 in if truthy delta
                    then (case toStringJs (the delta) of
                            None \<Rightarrow>
                              st\<lparr>errors := errors st
                                      @ [''Failed to parse OpenAI stream payload'']\<rparr>
                          | Some shown \<Rightarrow>
                              st\<lparr>fullText := fullText st @ shown,
                                 emitted := emitted st @ [OnToken shown]\<rparr>)
                    else st))"
    by (simp add: processLine_def payloadOf_def Let_def)
  define lg where "lg = [''Failed to parse OpenAI stream payload'']"
  show ?thesis
  proof (cases "parse (payloadOf l)")
    case None
    then have "\<forall>st. processLine parse st l
      = st\<lparr>fullText := fullText st @ [], emitted := emitted st @ [], errors := errors st @ lg\<rparr>"
      by (simp add: unf lg_def)
    then show ?thesis by blast
  next
    case (Some j)
    define delta where "delta = optProp (optProp (optIndex0 (optProp (Some j) ''choices''))
                                        ''delta'') ''content''"
    show ?thesis
    proof (cases "j = JNull")
      case True
      with Some have "\<forall>st. processLine parse st l
        = st\<lparr>fullText := fullText st @ [], emitted := emitted st @ [], errors := errors st @ lg\<rparr>"
        by (simp add: unf lg_def)
      then show ?thesis by blast
    next
      case False
      with Some have u2: "\<And>st. processLine parse st l =
         (if truthy delta
                    then (case toStringJs (the delta) of
                            None \<Rightarrow>
                              st\<lparr>errors := errors st
                                      @ [''Failed to parse OpenAI stream payload'']\<rparr>
                          | Some shown \<Rightarrow>
                              st\<lparr>fullText := fullText st @ shown,
                                 emitted := emitted st @ [OnToken shown]\<rparr>)
                    else st)"
        by (cases j) (simp_all add: unf delta_def Let_def)
      show ?thesis
      proof (cases "truthy delta")
        case True
        show ?thesis
        proof (cases "toStringJs (the delta)")
          case None
          with True have "\<forall>st. processLine parse st l
            = st\<lparr>fullText := fullText st @ [], emitted := emitted st @ [],
                 errors := errors st @ lg\<rparr>"
            by (simp add: u2 lg_def)
          then show ?thesis by blast
        next
          case (Some shown)
          with True have "\<forall>st. processLine parse st l
            = st\<lparr>fullText := fullText st @ shown,
                 emitted := emitted st @ [OnToken shown],
                 errors := errors st @ []\<rparr>"
            by (simp add: u2)
          then show ?thesis by blast
        qed
      next
        case False
        then have "\<forall>st. processLine parse st l
          = st\<lparr>fullText := fullText st @ [], emitted := emitted st @ [], errors := errors st @ []\<rparr>"
          by (simp add: u2)
        then show ?thesis by blast
      qed
    qed
  qed
qed

lemma processLine_visible_cong:
  assumes "visible st = visible st'"
  shows "visible (processLine parse st l) = visible (processLine parse st' l)"
proof -
  from processLine_effect[of parse l] obtain t es lg where
    e: "\<And>s. processLine parse s l
      = s\<lparr>fullText := fullText s @ t, emitted := emitted s @ es, errors := errors s @ lg\<rparr>"
    by blast
  show ?thesis using assms unfolding e[of st] e[of st'] by (simp add: visible_def)
qed

lemma foldl_processLine_visible_cong:
  "visible st = visible st' \<Longrightarrow>
   visible (foldl (processLine parse) st ls) = visible (foldl (processLine parse) st' ls)"
proof (induction ls arbitrary: st st')
  case Nil
  then show ?case by simp
next
  case (Cons l ls)
  have "visible (foldl (processLine parse) (processLine parse st l) ls)
          = visible (foldl (processLine parse) (processLine parse st' l) ls)"
    by (rule Cons.IH) (rule processLine_visible_cong[OF Cons.prems])
  then show ?case by simp
qed

lemma processLine_skips:
  assumes "\<not> startsWith (trim line) ''data:'' \<or> parse (payloadOf line) = None"
  shows "visible (processLine parse st line) = visible st"
proof -
  from assms have "processLine parse st line = st
     \<or> processLine parse st line
          = st\<lparr>errors := errors st @ [''Failed to parse OpenAI stream payload'']\<rparr>"
    by (auto simp: processLine_def payloadOf_def Let_def)
  then show ?thesis by (auto simp: visible_def)
qed

lemma processLine_sentinel:
  assumes "payloadOf line = ''[DONE]''"
  shows "processLine parse st line = st"
  using assms by (simp add: processLine_def payloadOf_def Let_def)

text \<open>
  Claim C6. Called with all three callbacks, the offline provider, whose reply is the
  text \<open>r\<close>, calls \<open>onStart\<close>, then \<open>onToken\<close> once for each fragment of \<open>chunkText r\<close>,
  in order, then \<open>onComplete\<close> with \<open>r\<close>, and nothing else; there is at least one
  fragment. The provider without streaming, when its call returns a text \<open>t\<close>, calls
  \<open>onStart\<close>, then \<open>onToken\<close> once for each fragment of \<open>chunkText t\<close>, in order, then
  \<open>onComplete\<close> with \<open>t\<close>, and nothing else; there is no fragment exactly when \<open>t\<close> is
  empty. The fragments of a text are its successive slices of 20 code units, the
  last one shorter when the length is not a multiple of 20, and they concatenate to
  the text.
\<close>

theorem nonstreaming_callback_contract:
  assumes "hasOnToken cb" and "hasOnStart cb" and "hasOnComplete cb"
    and "result (AnthropicProvider_chat fetch apiKey msgs options cb) = Inr t"
    and "result (LocalProvider_chat msgs' options' cb) = Inr r"
  shows "events (LocalProvider_chat msgs' options' cb)
           = OnStart # map OnToken (chunkText r) @ [OnComplete r]
       \<and> chunkText r \<noteq> []
       \<and> events (AnthropicProvider_chat fetch apiKey msgs options cb)
           = OnStart # map OnToken (chunkText t) @ [OnComplete t]
       \<and> (chunkText t = [] \<longleftrightarrow> t = [])
       \<and> chunkText t = map (\<lambda>k. take 20 (drop (20 * k) t)) [0..<(length t + 19) div 20]
       \<and> chunkText r = map (\<lambda>k. take 20 (drop (20 * k) r)) [0..<(length r + 19) div 20]
       \<and> concat (chunkText t) = t
       \<and> concat (chunkText r) = r
       \<and> callbackContract (LocalProvider_chat msgs' options' cb)
       \<and> callbackOrder (AnthropicProvider_chat fetch apiKey msgs options cb)
       \<and> (if t = []
          then tokensOf (events (AnthropicProvider_chat fetch apiKey msgs options cb)) = []
          else callbackContract (AnthropicProvider_chat fetch apiKey msgs options cb))"
proof -
  have r: "r = ''Local mode placeholder. Provider is offline. Messages received: ''
                 @ showNat (length msgs')"
    using assms(5) by (simp add: LocalProvider_chat_def Let_def)
  have r_ne: "r \<noteq> []"
    unfolding r by simp
  have le: "events (LocalProvider_chat msgs' options' cb)
           = OnStart # map OnToken (chunkText r) @ [OnComplete r]"
    using assms(1-3) unfolding r
    by (simp add: LocalProvider_chat_def callStart_def callComplete_def Let_def)
  have ae: "events (AnthropicProvider_chat fetch apiKey msgs options cb)
           = OnStart # map OnToken (chunkText t) @ [OnComplete t]"
    using assms(1-4)
    by (auto simp: AnthropicProvider_chat_def callStart_def callComplete_def Let_def
        chunkText_empty_iff split: option.splits if_splits)
  have loc: "callbackContract (LocalProvider_chat msgs' options' cb)"
    using assms(1-3)
    by (simp add: LocalProvider_chat_def callbackContract_def callStart_def callComplete_def
        Let_def tokensOf_append tokensOf_map_OnToken tokensOf_simps concat_chunkText
        chunkText_empty_iff)
  have ant: "callbackOrder (AnthropicProvider_chat fetch apiKey msgs options cb)
       \<and> (if t = []
          then tokensOf (events (AnthropicProvider_chat fetch apiKey msgs options cb)) = []
          else callbackContract (AnthropicProvider_chat fetch apiKey msgs options cb))"
    using assms(1-4)
    by (auto simp: AnthropicProvider_chat_def callbackContract_def callbackOrder_def
        callStart_def callComplete_def
        Let_def tokensOf_append tokensOf_map_OnToken tokensOf_simps concat_chunkText
        chunkText_empty_iff split: option.splits if_splits)
  have ne: "chunkText r \<noteq> []"
    using r_ne by (simp add: chunkText_empty_iff)
  have ant1: "callbackOrder (AnthropicProvider_chat fetch apiKey msgs options cb)"
    using ant by (rule conjunct1)
  have ant2: "if t = []
          then tokensOf (events (AnthropicProvider_chat fetch apiKey msgs options cb)) = []
          else callbackContract (AnthropicProvider_chat fetch apiKey msgs options cb)"
    using ant by (rule conjunct2)
  show ?thesis
    by (intro conjI le ne ae chunkText_empty_iff chunkText_slices concat_chunkText
        loc ant1 ant2)
qed

theorem nonstreaming_callback_contract_witness:
  "hasOnToken allCallbacks \<and> hasOnStart allCallbacks \<and> hasOnComplete allCallbacks
   \<and> result (LocalProvider_chat [] noOptions allCallbacks)
        = Inr ''Local mode placeholder. Provider is offline. Messages received: 0''
   \<and> events (LocalProvider_chat [] noOptions allCallbacks)
        = [OnStart, OnToken ''Local mode placehold'', OnToken ''er. Provider is offl'',
           OnToken ''ine. Messages receiv'', OnToken ''ed: 0'',
           OnComplete ''Local mode placeholder. Provider is offline. Messages received: 0'']
   \<and> result (AnthropicProvider_chat textReply ''key'' [] noOptions allCallbacks)
        = Inr ''Use a parameterised query.''
   \<and> events (AnthropicProvider_chat textReply ''key'' [] noOptions allCallbacks)
        = [OnStart, OnToken ''Use a parameterised '', OnToken ''query.'',
           OnComplete ''Use a parameterised query.'']
   \<and> callbackContract (AnthropicProvider_chat textReply ''key'' [] noOptions allCallbacks)
   \<and> result (AnthropicProvider_chat emptyReply ''key'' [] noOptions allCallbacks) = Inr []
   \<and> events (AnthropicProvider_chat emptyReply ''key'' [] noOptions allCallbacks)
        = [OnStart, OnComplete []]
   \<and> callbackOrder (AnthropicProvider_chat emptyReply ''key'' [] noOptions allCallbacks)"
proof -
  have h: "hasOnToken allCallbacks" "hasOnStart allCallbacks" "hasOnComplete allCallbacks"
    by (simp_all add: allCallbacks_def)
  have r0: "result (LocalProvider_chat [] noOptions allCallbacks)
        = Inr ''Local mode placeholder. Provider is offline. Messages received: 0''"
    by code_simp
  have r1: "result (AnthropicProvider_chat textReply ''key'' [] noOptions allCallbacks)
        = Inr ''Use a parameterised query.''"
    by code_simp
  have r2: "result (AnthropicProvider_chat emptyReply ''key'' [] noOptions allCallbacks) = Inr []"
    by code_simp
  have c0: "chunkText ''Local mode placeholder. Provider is offline. Messages received: 0''
        = [''Local mode placehold'', ''er. Provider is offl'', ''ine. Messages receiv'',
           ''ed: 0'']"
    by code_simp
  have c1: "chunkText ''Use a parameterised query.'' = [''Use a parameterised '', ''query.'']"
    by code_simp
  have c2: "chunkText [] = []"
    by code_simp
  from nonstreaming_callback_contract[OF h r1 r0]
       nonstreaming_callback_contract[OF h r2 r0]
       h r0 r1 r2
  show ?thesis
    unfolding c0 c1 c2 by simp
qed

text \<open>
  The contract with "at least one \<open>onToken\<close>" fails for the provider without
  streaming on a reply whose text is empty: \<open>onStart\<close> is followed by \<open>onComplete\<close>.
\<close>

theorem nonstreaming_empty_reply_counterexample:
  "\<not> callbackContract (AnthropicProvider_chat emptyReply ''key'' [] noOptions allCallbacks)"
  by (simp add: AnthropicProvider_chat_def callbackContract_def emptyReply_def allCallbacks_def
      noOptions_def callStart_def callComplete_def Let_def tokensOf_def payloadMessages_def)

text \<open>
  Claim C7. A line that, trimmed as the loop trims it, does not start with \<open>data:\<close>,
  or whose payload \<open>JSON.parse\<close> rejects, leaves the text and the callback calls as
  they were (a rejected payload adds a line to the log). A body that holds such
  a line between complete lines gives the same text and the same callback calls as the
  body without it, however the body is cut into chunks: the lines after it are
  processed. The loop is a total function, so nothing is thrown past it.
\<close>

theorem malformed_frame_is_skipped:
  assumes bad: "\<not> startsWith (trim line) ''data:'' \<or> parse (payloadOf line) = None"
    and line: "CHR 0x0A \<notin> set line"
    and boundary: "pre = [] \<or> last pre = CHR 0x0A"
    and body: "concat chunks = pre @ line @ CHR 0x0A # post"
    and body': "concat chunks' = pre @ post"
  shows "visible (processLine parse st line) = visible st
       \<and> visible (readLoop parse [] st chunks) = visible (readLoop parse [] st chunks')"
proof -
  have skip: "\<And>s. visible (processLine parse s line) = visible s"
    using bad by (rule processLine_skips)
  have "readLoop parse [] st chunks
          = foldl (processLine parse) st (completeLines (pre @ line @ CHR 0x0A # post))"
    using readLoop_lines[of "[]" parse st chunks] body by simp
  also have "completeLines (pre @ line @ CHR 0x0A # post)
               = completeLines pre @ line # completeLines post"
    using completeLines_at_boundary[OF boundary] completeLines_line[OF line] by simp
  finally have a: "readLoop parse [] st chunks
     = foldl (processLine parse)
         (processLine parse (foldl (processLine parse) st (completeLines pre)) line)
         (completeLines post)"
    by simp
  have "readLoop parse [] st chunks'
          = foldl (processLine parse) st (completeLines (pre @ post))"
    using readLoop_lines[of "[]" parse st chunks'] body' by simp
  also have "completeLines (pre @ post) = completeLines pre @ completeLines post"
    by (rule completeLines_at_boundary[OF boundary])
  finally have b: "readLoop parse [] st chunks'
     = foldl (processLine parse) (foldl (processLine parse) st (completeLines pre))
         (completeLines post)"
    by simp
  show ?thesis
    unfolding a b using skip foldl_processLine_visible_cong[OF skip] by simp
qed

theorem malformed_frame_is_skipped_witness:
  "jsonParse (payloadOf brokenFrame) = None
   \<and> CHR 0x0A \<notin> set brokenFrame
   \<and> last (deltaFrame ''a'' @ nl) = CHR 0x0A
   \<and> visible (readLoop jsonParse [] emptyStream
                [deltaFrame ''a'', nl @ ''data: {bro'', ''ken'' @ nl @ deltaFrame ''b'' @ nl])
       = (''ab'', [OnToken ''a'', OnToken ''b''])"
proof -
  have bad: "\<not> startsWith (trim brokenFrame) ''data:'' \<or> jsonParse (payloadOf brokenFrame) = None"
    and bad': "jsonParse (payloadOf brokenFrame) = None"
    by code_simp+
  have line: "CHR 0x0A \<notin> set brokenFrame"
    by code_simp
  have boundary: "deltaFrame ''a'' @ nl = [] \<or> last (deltaFrame ''a'' @ nl) = CHR 0x0A"
    and boundary': "last (deltaFrame ''a'' @ nl) = CHR 0x0A"
    by (simp_all add: nl_def)
  have body: "concat [deltaFrame ''a'', nl @ ''data: {bro'', ''ken'' @ nl @ deltaFrame ''b'' @ nl]
                = (deltaFrame ''a'' @ nl) @ brokenFrame @ CHR 0x0A # (deltaFrame ''b'' @ nl)"
    by (simp add: nl_def brokenFrame_def)
  have body': "concat [deltaFrame ''a'' @ nl, deltaFrame ''b'' @ nl]
                = (deltaFrame ''a'' @ nl) @ (deltaFrame ''b'' @ nl)"
    by simp
  have clean: "visible (readLoop jsonParse [] emptyStream
                  [deltaFrame ''a'' @ nl, deltaFrame ''b'' @ nl])
                = (''ab'', [OnToken ''a'', OnToken ''b''])"
    by code_simp
  from malformed_frame_is_skipped[where parse = jsonParse and st = emptyStream,
         OF bad line boundary body body']
       bad' line boundary' clean
  show ?thesis by simp
qed

text \<open>
  Claim C5, as the code has it. A line whose payload is \<open>[DONE]\<close> is skipped: the state
  of the loop stays as it was. The loop does not end there: it ends when the reader
  reports the end of the body, and its result is that of processing every complete
  line of the body in order, those after the sentinel included.
\<close>

theorem sentinel_is_skipped_not_final:
  assumes "payloadOf line = ''[DONE]''"
  shows "processLine parse st line = st
       \<and> readLoop parse [] st chunks
           = foldl (processLine parse) st (completeLines (concat chunks))"
  using processLine_sentinel[OF assms] readLoop_lines[of "[]" parse st chunks] by simp

theorem sentinel_is_skipped_not_final_witness:
  "payloadOf ''data: [DONE]'' = ''[DONE]''
   \<and> processLine jsonParse emptyStream ''data: [DONE]'' = emptyStream
   \<and> readLoop jsonParse [] emptyStream sentinelChunks
       = \<lparr>fullText = ''x'', emitted = [OnToken ''x''], errors = []\<rparr>"
proof -
  have h: "payloadOf ''data: [DONE]'' = ''[DONE]''"
    by code_simp
  have l: "completeLines (concat sentinelChunks) = [''data: [DONE]'', deltaFrame ''x'']"
    by code_simp
  have p: "processLine jsonParse emptyStream (deltaFrame ''x'')
             = \<lparr>fullText = ''x'', emitted = [OnToken ''x''], errors = []\<rparr>"
    by code_simp
  from sentinel_is_skipped_not_final[OF h, of jsonParse emptyStream sentinelChunks] h l p
  show ?thesis by simp
qed

text \<open>
  A body whose second line, after the sentinel, carries the delta \<open>x\<close>: the provider
  passes \<open>x\<close> to \<open>onToken\<close> and returns it.
\<close>

theorem sentinel_counterexample:
  "completeLines (concat sentinelChunks) = [''data: [DONE]'', deltaFrame ''x'']
   \<and> events (OpenAIProvider_chat jsonParse sentinelThenDelta ''key'' ''gpt'' [] noOptions
               allCallbacks)
       = [OnStart, OnToken ''x'', OnComplete ''x'']
   \<and> result (OpenAIProvider_chat jsonParse sentinelThenDelta ''key'' ''gpt'' [] noOptions
               allCallbacks)
       = Inr ''x''"
  by code_simp

section \<open>Verification: approval replies and the controller\<close>



















text \<open>
  Claim C8. When the session id names no session, or the session found does not allow
  user input, \<open>handleUserMessage\<close> shows one message in the window (an error message for
  the unknown session, a warning for the read-only one) and changes nothing else: the
  store, and with it every session and message, is as it was, and no call of the
  provider is made.
\<close>

theorem readonly_or_unknown_session_is_noop:
  assumes "getSession (store w) sid = None
           \<or> (\<exists>s. getSession (store w) sid = Some s \<and> \<not> allowUserInput s)"
  shows "handleUserMessage E chat w sid input
           = w\<lparr>notifications := notifications w
                 @ [if getSession (store w) sid = None
                    then ShowError ''Chat session not found.''
                    else ShowWarning ''This session is read-only.'']\<rparr>
       \<and> store (handleUserMessage E chat w sid input) = store w
       \<and> requests (handleUserMessage E chat w sid input) = requests w
       \<and> service (handleUserMessage E chat w sid input) = service w"
  using assms by (auto simp: handleUserMessage_def)

theorem readonly_or_unknown_session_is_noop_witness:
  "getSession (store storeWorld) ''zz'' = None
   \<and> handleUserMessage exampleEnv rejectingChat storeWorld ''zz'' ''hello''
       = storeWorld\<lparr>notifications := [ShowError ''Chat session not found.'']\<rparr>
   \<and> getSession (store storeWorld) ''s1'' = Some exampleFixSession
   \<and> allowUserInput exampleFixSession = False
   \<and> handleUserMessage exampleEnv rejectingChat storeWorld ''s1'' ''hello''
       = storeWorld\<lparr>notifications := [ShowWarning ''This session is read-only.'']\<rparr>"
proof -
  have h1: "getSession (store storeWorld) ''zz'' = None"
    by (simp add: storeWorld_def exampleWorld_def getSession_def example_defs)
  have h2: "getSession (store storeWorld) ''s1'' = Some exampleFixSession"
    by (simp add: storeWorld_def exampleWorld_def getSession_def example_defs)
  have h3: "allowUserInput exampleFixSession = False"
    by (simp add: exampleFixSession_def)
  have n: "notifications storeWorld = []"
    by (simp add: storeWorld_def exampleWorld_def)
  from h2 h3 have h4: "getSession (store storeWorld) ''s1'' = None
      \<or> (\<exists>s. getSession (store storeWorld) ''s1'' = Some s \<and> \<not> allowUserInput s)"
    by simp
  from readonly_or_unknown_session_is_noop[OF disjI1[OF h1], where E = exampleEnv
         and chat = rejectingChat and input = "''hello''"]
       readonly_or_unknown_session_is_noop[OF h4, where E = exampleEnv
         and chat = rejectingChat and input = "''hello''"]
       h1 h2 h3 n
  show ?thesis by simp
qed

section \<open>Verification: the fix run\<close>

lemma headId_map: "headId m = (case map s_id (sessions m) of [] \<Rightarrow> None | x # _ \<Rightarrow> Some x)"
  by (simp add: headId_def headSession_def split: list.splits)

lemma ids_addMessage:
  "map s_id (sessions (fst (addMessage E m sid msg))) = map s_id (sessions m)"
  by (auto simp: addMessage_def store_defs Let_def map_update_same
      split: option.splits prod.splits dest!: findIndex_SomeD)

lemma ids_updateMessage:
  "map s_id (sessions (fst (updateMessage E m sid mid u))) = map s_id (sessions m)"
  by (auto simp: updateMessage_def store_defs Let_def map_update_same
      split: option.splits prod.splits dest!: findIndex_SomeD)

lemma ids_appendToMessage:
  "map s_id (sessions (fst (appendToMessage E m sid mid f))) = map s_id (sessions m)"
  by (auto simp: appendToMessage_def store_defs Let_def map_update_same
      split: option.splits prod.splits dest!: findIndex_SomeD)

lemma ids_updateSessionStatus:
  "map s_id (sessions (updateSessionStatus E m sid st)) = map s_id (sessions m)"
  by (auto simp: updateSessionStatus_def store_defs Let_def map_update_same
      split: option.splits prod.splits dest!: findIndex_SomeD)

lemma headId_ops [simp]:
  "headId (fst (addMessage E m sid msg)) = headId m"
  "headId (fst (updateMessage E m sid mid u)) = headId m"
  "headId (fst (appendToMessage E m sid mid f)) = headId m"
  "headId (updateSessionStatus E m sid st) = headId m"
  by (simp_all only: headId_map ids_addMessage ids_updateMessage ids_appendToMessage
      ids_updateSessionStatus)

lemma findIndex_head: "headId m = Some sid \<Longrightarrow> findIndex (\<lambda>s. s_id s = sid) (sessions m) = Some 0"
  by (auto simp: headId_def headSession_def split: list.splits)

lemma addMessage_head:
  assumes "headSession m = Some s" and "s_id s = sid"
  shows "\<exists>stored t. snd (addMessage E m sid msg) = Some stored
     \<and> m_role stored = n_role msg \<and> m_content stored = n_content msg
     \<and> headSession (fst (addMessage E m sid msg))
          = Some (s\<lparr>s_messages := s_messages s @ [stored], s_updatedAt := t\<rparr>)"
proof -
  from assms obtain rest where r: "sessions m = s # rest"
    by (auto simp: headSession_def split: list.splits)
  from assms have f: "findIndex (\<lambda>s. s_id s = sid) (sessions m) = Some 0"
    by (intro findIndex_head) (simp add: headId_def)
  show ?thesis
    using r assms(2) unfolding addMessage_def f
    by (auto simp: store_defs Let_def headSession_def split: option.splits prod.splits)
qed

lemma say_frame [simp]:
  "requests (say E sid r c w) = requests w" "edits (say E sid r c w) = edits w"
  "saves (say E sid r c w) = saves w" "service (say E sid r c w) = service w"
  "headId (store (say E sid r c w)) = headId (store w)"
  by (simp_all add: say_def)

lemma setStatus_frame [simp]:
  "requests (setStatus E sid st w) = requests w" "edits (setStatus E sid st w) = edits w"
  "saves (setStatus E sid st w) = saves w" "service (setStatus E sid st w) = service w"
  "headId (store (setStatus E sid st w)) = headId (store w)"
  by (simp_all add: setStatus_def)

lemma say_head:
  assumes "headSession (store w) = Some s" and "s_id s = sid"
  shows "\<exists>stored t. m_role stored = r \<and> m_content stored = c
     \<and> headSession (store (say E sid r c w))
          = Some (s\<lparr>s_messages := s_messages s @ [stored], s_updatedAt := t\<rparr>)"
  using addMessage_head[OF assms, of E "plainMessage r c"]
  by (auto simp: say_def plainMessage_def)

lemma setStatus_head:
  assumes "headSession (store w) = Some s" and "s_id s = sid"
  shows "\<exists>t. headSession (store (setStatus E sid st w))
          = Some (s\<lparr>s_status := st, s_updatedAt := t\<rparr>)"
proof -
  from assms obtain rest where r: "sessions (store w) = s # rest"
    by (auto simp: headSession_def split: list.splits)
  from assms have f: "findIndex (\<lambda>s. s_id s = sid) (sessions (store w)) = Some 0"
    by (intro findIndex_head) (simp add: headId_def)
  show ?thesis
    using r unfolding setStatus_def updateSessionStatus_def f
    by (auto simp: store_defs Let_def headSession_def split: prod.splits)
qed

lemma callChat_facts:
  "fst (callChat chat msgs opts cb w) = fst (chat (service w) msgs opts cb)"
  "requests (snd (callChat chat msgs opts cb w))
     = requests w @ [\<lparr>q_messages = msgs, q_options = opts, q_callbacks = cb\<rparr>]"
  "store (snd (callChat chat msgs opts cb w)) = store w"
  "edits (snd (callChat chat msgs opts cb w)) = edits w"
  "saves (snd (callChat chat msgs opts cb w)) = saves w"
  by (simp_all add: callChat_def Let_def split: prod.splits)

lemma streamedText_simps [simp]:
  "streamedText [] = []" "streamedText (OnStart # es) = streamedText es"
  "streamedText (OnComplete t # es) = streamedText es"
  "streamedText (OnToken t # es) = t @ streamedText es"
  by (simp_all add: streamedText_def tokensOf_def)

lemma fixCallback_fold:
  "fst (foldl (fixCallback E sid mid) (full, m) evs) = full @ streamedText evs
   \<and> headId (snd (foldl (fixCallback E sid mid) (full, m) evs)) = headId m"
proof (induction evs arbitrary: full m)
  case Nil
  then show ?case by simp
next
  case (Cons e evs)
  then show ?case by (cases e) simp_all
qed

lemma tokenCallbacks_neq [simp]: "tokenCallbacks \<noteq> noCallbacks" "noCallbacks \<noteq> tokenCallbacks"
  by (simp_all add: tokenCallbacks_def noCallbacks_def)

lemma calls_append [simp]:
  "proposeCalls (rs @ [q]) = proposeCalls rs + (if q_callbacks q = tokenCallbacks then 1 else 0)"
  "reviewCalls (rs @ [q]) = reviewCalls rs + (if q_callbacks q = noCallbacks then 1 else 0)"
  by (simp_all add: proposeCalls_def reviewCalls_def)

lemma requestFix_proposes:
  assumes P: "alwaysProposes (chatOf R)" and H: "headId (store w) = Some (sessionIdOf R)"
  shows "\<exists>prop w'. requestFix R attempt fb w = (Inr prop, w')
     \<and> proposeCalls (requests w') = proposeCalls (requests w) + 1
     \<and> reviewCalls (requests w') = reviewCalls (requests w)
     \<and> edits w' = edits w \<and> saves w' = saves w
     \<and> headId (store w') = Some (sessionIdOf R)"
proof -
  let ?E = "env R" and ?sid = "sessionIdOf R"
  define lbl where "lbl = ''[robot] Requesting secure fix from provider''
      @ (if attempt > 1 then '' (attempt '' @ showNat attempt @ '')'' else []) @ ''...''"
  let ?w1 = "say ?E ?sid Agent lbl w"
  let ?am = "addMessage ?E (store ?w1) ?sid pendingMessage"
  let ?w2 = "?w1\<lparr>store := fst ?am\<rparr>"
  have h1: "headId (store ?w1) = Some ?sid" using H by simp
  then obtain s where s: "headSession (store ?w1) = Some s" "s_id s = ?sid"
    by (auto simp: headId_def)
  from addMessage_head[OF s, of ?E pendingMessage] obtain stored where
    st: "snd ?am = Some stored" by auto
  let ?msgs = "[\<lparr>role = RUser,
                      content = buildFixPrompt (document R) (diagnostic R) (contextOf R)
                                  attempt fb, name = None\<rparr>]"
  let ?opts = "noOptions\<lparr>systemPrompt := Some fixSystemPrompt\<rparr>"
  let ?cc = "callChat (chatOf R) ?msgs ?opts tokenCallbacks ?w2"
  let ?fo = "foldl (fixCallback ?E ?sid (m_id stored)) ([], store (snd ?cc)) (events (fst ?cc))"
  let ?w4 = "(snd ?cc)\<lparr>store := snd ?fo\<rparr>"
  have o: "fst ?cc = fst (chatOf R (service ?w2) ?msgs ?opts tokenCallbacks)"
    by (simp add: callChat_facts)
  from P have "case result (fst ?cc) of Inl e \<Rightarrow> False
      | Inr t \<Rightarrow> proposedReplacement (streamedText (events (fst ?cc))) \<noteq> []"
    unfolding o alwaysProposes_def by blast
  then obtain reply where reply: "result (fst ?cc) = Inr reply"
    and ne: "proposedReplacement (streamedText (events (fst ?cc))) \<noteq> []"
    by (auto split: sum.splits)
  have full: "fst ?fo = streamedText (events (fst ?cc))"
    and hid: "headId (snd ?fo) = headId (store (snd ?cc))"
    using fixCallback_fold[of ?E ?sid "m_id stored" "[]" "store (snd ?cc)" "events (fst ?cc)"]
    by simp_all
  from ne full have ne': "proposedReplacement (fst ?fo) \<noteq> []" by simp
  have unf: "requestFix R attempt fb w
     = (Inr \<lparr>raw = fst ?fo, replacement = proposedReplacement (fst ?fo)\<rparr>, ?w4)"
    unfolding requestFix_def Let_def split_beta proposedReplacement_def[symmetric]
      lbl_def[symmetric]
    by (simp only: st reply ne' option.case sum.case if_False)
  have rq: "requests ?w4 = requests w @ [\<lparr>q_messages = ?msgs, q_options = ?opts, q_callbacks = tokenCallbacks\<rparr>]"
    by (simp add: callChat_facts)
  have fr: "edits ?w4 = edits w" "saves ?w4 = saves w"
    by (simp_all add: callChat_facts)
  have hd: "headId (store ?w4) = Some ?sid"
    using h1 by (simp add: fixCallback_fold callChat_facts)
  show ?thesis
    unfolding unf using rq fr hd by simp
qed

lemma reviewFix_rejects:
  assumes Rj: "alwaysRejects (jsonOf R) (chatOf R)"
    and H: "headId (store w) = Some (sessionIdOf R)"
  shows "\<exists>appr w'. reviewFix R pr attempt fb w = (Inr appr, w')
     \<and> a_decision appr = Reject
     \<and> proposeCalls (requests w') = proposeCalls (requests w)
     \<and> reviewCalls (requests w') = reviewCalls (requests w) + 1
     \<and> edits w' = edits w \<and> saves w' = saves w
     \<and> headId (store w') = Some (sessionIdOf R)"
proof -
  let ?E = "env R" and ?sid = "sessionIdOf R"
  let ?w1 = "say ?E ?sid Agent ''[test tube] Approval agent reviewing proposed fix...'' w"
  let ?msgs = "[\<lparr>role = RUser, content = buildApprovalPrompt (document R) (diagnostic R)
                   (contextOf R) pr attempt fb, name = None\<rparr>]"
  let ?opts = "noOptions\<lparr>systemPrompt := Some approvalSystemPrompt\<rparr>"
  let ?cc = "callChat (chatOf R) ?msgs ?opts noCallbacks ?w1"
  have o: "fst ?cc = fst (chatOf R (service ?w1) ?msgs ?opts noCallbacks)"
    by (simp add: callChat_facts)
  from Rj have "case result (fst ?cc) of Inl e \<Rightarrow> False
      | Inr t \<Rightarrow> a_decision (parseApprovalResponse (jsonOf R) t) = Reject"
    unfolding o alwaysRejects_def by blast
  then obtain reply where reply: "result (fst ?cc) = Inr reply"
    and rej: "a_decision (parseApprovalResponse (jsonOf R) reply) = Reject"
    by (auto split: sum.splits)
  let ?appr = "parseApprovalResponse (jsonOf R) reply"
  define disp where "disp = ''[warning] Approval agent requested changes: ''
                          @ (if a_notes ?appr = []
                             then ''Please adjust the fix before applying.''
                             else a_notes ?appr)"
  let ?w3 = "say ?E ?sid Assistant disp (snd ?cc)"
  have unf: "reviewFix R pr attempt fb w = (Inr ?appr, ?w3)"
    unfolding reviewFix_def Let_def split_beta
    by (simp only: reply rej sum.case Decision.distinct if_False disp_def[symmetric])
  have rq: "requests ?w3 = requests w @ [\<lparr>q_messages = ?msgs, q_options = ?opts, q_callbacks = noCallbacks\<rparr>]"
    by (simp add: callChat_facts)
  have fr: "edits ?w3 = edits w" "saves ?w3 = saves w"
    by (simp_all add: callChat_facts)
  have hd: "headId (store ?w3) = Some ?sid"
    using H by (simp add: callChat_facts)
  show ?thesis
    unfolding unf using rq fr hd rej by simp
qed

lemma attemptLoop_rejected:
  assumes P: "alwaysProposes (chatOf R)" and Rj: "alwaysRejects (jsonOf R) (chatOf R)"
  shows "headId (store w) = Some (sessionIdOf R) \<Longrightarrow> attempt < N \<Longrightarrow>
     \<exists>pr appr w'. attemptLoop R N attempt fb p a w = (Inr (Some pr, Some appr), w')
       \<and> a_decision appr = Reject
       \<and> proposeCalls (requests w') = proposeCalls (requests w) + (N - attempt)
       \<and> reviewCalls (requests w') = reviewCalls (requests w) + (N - attempt)
       \<and> edits w' = edits w \<and> saves w' = saves w
       \<and> headId (store w') = Some (sessionIdOf R)"
proof (induction "N - attempt" arbitrary: attempt fb p a w)
  case 0
  then show ?case by simp
next
  case (Suc k)
  let ?sid = "sessionIdOf R" and ?E = "env R"
  define lbl where "lbl = ''[repeat] Revision attempt '' @ showNat (attempt + 1)
                           @ '' requested based on approval feedback.''"
  define w1 where "w1 = (if attempt + 1 > 1 then say ?E ?sid Agent lbl w else w)"
  have h1: "headId (store w1) = Some ?sid" and f1: "requests w1 = requests w"
    "edits w1 = edits w" "saves w1 = saves w"
    using Suc.prems(1) by (simp_all add: w1_def)
  from requestFix_proposes[OF P h1, of "attempt + 1" fb] obtain pr w2 where
    rf: "requestFix R (attempt + 1) fb w1 = (Inr pr, w2)"
    and c2: "proposeCalls (requests w2) = proposeCalls (requests w) + 1"
      "reviewCalls (requests w2) = reviewCalls (requests w)"
      "edits w2 = edits w" "saves w2 = saves w"
    and h2: "headId (store w2) = Some ?sid"
    using f1 by auto
  from reviewFix_rejects[OF Rj h2, of pr "attempt + 1" fb] obtain appr w3 where
    rv: "reviewFix R pr (attempt + 1) fb w2 = (Inr appr, w3)"
    and rej: "a_decision appr = Reject"
    and c3: "proposeCalls (requests w3) = proposeCalls (requests w) + 1"
      "reviewCalls (requests w3) = reviewCalls (requests w) + 1"
      "edits w3 = edits w" "saves w3 = saves w"
    and h3: "headId (store w3) = Some ?sid"
    using c2 by auto
  define fb' where "fb' = fb @ [if a_notes appr = []
       then ''Approval agent requires improvements but did not provide specific notes.''
       else a_notes appr]"
  define w4 where "w4 = say ?E ?sid Agent
     ''[arrows] Approval agent requested changes. Updating instructions for the fix provider.'' w3"
  have unf: "attemptLoop R N attempt fb p a w
     = (if attempt + 1 \<ge> N then (Inr (Some pr, Some appr), w3)
        else attemptLoop R N (attempt + 1) fb' (Some pr) (Some appr) w4)"
    apply (subst attemptLoop.simps)
    unfolding Let_def lbl_def[symmetric] w1_def[symmetric]
    apply (simp only: Suc.prems(2) if_True rf rv prod.case sum.case rej Decision.distinct
        if_False fb'_def[symmetric] w4_def[symmetric])
    done
  show ?case
  proof (cases "attempt + 1 \<ge> N")
    case True
    with Suc.prems(2) have "N - attempt = 1" by simp
    with True unf rej c3 h3 show ?thesis by simp
  next
    case False
    then have lt: "attempt + 1 < N" by simp
    have k: "k = N - (attempt + 1)" using Suc.hyps(2) by simp
    have h4: "headId (store w4) = Some ?sid" using h3 by (simp add: w4_def)
    from Suc.hyps(1)[OF k h4 lt, of fb' "Some pr" "Some appr"]
    obtain pr' appr' w' where
      r: "attemptLoop R N (attempt + 1) fb' (Some pr) (Some appr) w4
            = (Inr (Some pr', Some appr'), w')"
      and rej': "a_decision appr' = Reject"
      and c: "proposeCalls (requests w') = proposeCalls (requests w4) + (N - (attempt + 1))"
        "reviewCalls (requests w') = reviewCalls (requests w4) + (N - (attempt + 1))"
        "edits w' = edits w4" "saves w' = saves w4"
      and h': "headId (store w') = Some ?sid"
      by blast
    have e4: "requests w4 = requests w3" "edits w4 = edits w3" "saves w4 = saves w3"
      by (simp_all add: w4_def)
    have n1: "proposeCalls (requests w') = proposeCalls (requests w) + (N - attempt)"
      using c(1) c3(1) lt unfolding e4 by arith
    have n2: "reviewCalls (requests w') = reviewCalls (requests w) + (N - attempt)"
      using c(2) c3(2) lt unfolding e4 by arith
    have n3: "edits w' = edits w" "saves w' = saves w"
      using c(3,4) c3(3,4) unfolding e4 by simp_all
    have "attemptLoop R N attempt fb p a w = (Inr (Some pr', Some appr'), w')"
      using False unf r by simp
    with rej' n1 n2 n3 h' show ?thesis by blast
  qed
qed

lemma runBody_rejected:
  assumes P: "alwaysProposes (chatOf R)" and Rj: "alwaysRejects (jsonOf R) (chatOf R)"
    and H: "headId (store w) = Some (sessionIdOf R)"
  shows "\<exists>w3. runBody R choice applied w
            = (Inr (), setStatus (env R) (sessionIdOf R) Completed
                         (say (env R) (sessionIdOf R) Agent couldNotSignOff w3))
     \<and> proposeCalls (requests w3) = proposeCalls (requests w) + 1
     \<and> reviewCalls (requests w3) = reviewCalls (requests w) + 1
     \<and> edits w3 = edits w \<and> saves w3 = saves w
     \<and> headId (store w3) = Some (sessionIdOf R)"
proof -
  let ?sid = "sessionIdOf R" and ?E = "env R"
  define w1 where
    "w1 = say ?E ?sid Agent ''[magnifier] Gathering code context with `read_file` tool...'' w"
  define w2 where
    "w2 = say ?E ?sid Tool
            (renderToolMessage ''read_file'' (fsPath (document R)) (snippet (contextOf R))) w1"
  have h2: "headId (store w2) = Some ?sid"
    and f2: "requests w2 = requests w" "edits w2 = edits w" "saves w2 = saves w"
    using H by (simp_all add: w1_def w2_def)
  have lt: "0 < maxAttempts" by (simp add: maxAttempts_def)
  from attemptLoop_rejected[OF P Rj h2 lt, of "[]" None None] obtain pr appr w3 where
    lp: "attemptLoop R maxAttempts 0 [] None None w2 = (Inr (Some pr, Some appr), w3)"
    and rej: "a_decision appr = Reject"
    and c: "proposeCalls (requests w3) = proposeCalls (requests w2) + (maxAttempts - 0)"
      "reviewCalls (requests w3) = reviewCalls (requests w2) + (maxAttempts - 0)"
      "edits w3 = edits w2" "saves w3 = saves w2"
    and h3: "headId (store w3) = Some ?sid"
    by blast
  have unf: "runBody R choice applied w
            = (Inr (), setStatus ?E ?sid Completed (say ?E ?sid Agent couldNotSignOff w3))"
    unfolding runBody_def Let_def w1_def[symmetric] w2_def[symmetric]
    by (simp only: lp prod.case sum.case option.case rej Decision.distinct if_False
        couldNotSignOff_def[symmetric])
  from c f2 have "proposeCalls (requests w3) = proposeCalls (requests w) + 1"
    "reviewCalls (requests w3) = reviewCalls (requests w) + 1"
    "edits w3 = edits w" "saves w3 = saves w"
    by (simp_all add: maxAttempts_def)
  with unf h3 show ?thesis by blast
qed

lemma createSession_head:
  "headSession (fst (createSession E m ty title md)) = Some (snd (createSession E m ty title md))"
  using sessions_createSession[of E m ty title md] by (simp add: headSession_def)

text \<open>
  Claim C1, as the code runs. With a provider whose every proposal is usable and whose
  every approval reply reads as a rejection, \<open>run\<close> makes one call of \<open>chat\<close> to
  propose and one to review, because \<open>maxAttempts\<close> is 1. It then appends the agent
  message that says the approval agent could not sign off after 3 attempts, sets the
  status of the session to completed, and applies no edit and saves nothing.
\<close>

theorem rejected_fix_run_single_cycle:
  assumes P: "alwaysProposes chat" and Rj: "alwaysRejects parse chat"
  shows "proposeCalls (requests (run E parse chat choice applied doc diag w))
           = proposeCalls (requests w) + 1
       \<and> reviewCalls (requests (run E parse chat choice applied doc diag w))
           = reviewCalls (requests w) + 1
       \<and> edits (run E parse chat choice applied doc diag w) = edits w
       \<and> saves (run E parse chat choice applied doc diag w) = saves w
       \<and> (\<exists>s. headSession (store (run E parse chat choice applied doc diag w)) = Some s
              \<and> s_status s = Completed
              \<and> s_messages s \<noteq> []
              \<and> m_role (last (s_messages s)) = Agent
              \<and> m_content (last (s_messages s)) = couldNotSignOff)"
proof -
  define title where "title = Some (buildSessionTitle doc diag)"
  define md where "md = Some [(''filePath'', Some (fsPath doc)),
                                   (''diagnosticCode'', d_code diag),
                                   (''vulnerabilityMessage'', Some (d_message diag))]"
  define cs where "cs = createSession E (store w) Fix title md"
  define sid where "sid = s_id (snd cs)"
  define w1 where "w1 = setStatus E sid Running (w\<lparr>store := fst cs, reveals := Suc (reveals w)\<rparr>)"
  define l2 where "l2 = ''[rocket] Starting AI-assisted fix for **'' @ baseName doc @ ''** at line ''
                  @ showInt (d_startLine diag + 1) @ ''.''"
  define w2 where "w2 = say E sid Agent l2 w1"
  define l3 where "l3 = ''[warning] Issue detected: '' @ d_message diag"
  define w3 where "w3 = say E sid Agent l3 w2"
  define R where "R = \<lparr>env = E, jsonOf = parse, chatOf = chat, document = doc, diagnostic = diag,
               contextOf = buildContext doc diag, sessionIdOf = sid\<rparr>"
  have R: "env R = E" "sessionIdOf R = sid" "chatOf R = chat" "jsonOf R = parse"
    by (simp_all add: R_def)
  have h0: "headId (fst cs) = Some sid"
    by (simp add: headId_def createSession_head cs_def sid_def)
  have h3: "headId (store w3) = Some (sessionIdOf R)"
    and f3: "requests w3 = requests w" "edits w3 = edits w" "saves w3 = saves w"
    using h0 by (simp_all add: w3_def w2_def w1_def R)
  from runBody_rejected[of R w3 choice applied] P Rj h3 obtain w4 where
    rb: "runBody R choice applied w3
            = (Inr (), setStatus E sid Completed (say E sid Agent couldNotSignOff w4))"
    and c: "proposeCalls (requests w4) = proposeCalls (requests w3) + 1"
      "reviewCalls (requests w4) = reviewCalls (requests w3) + 1"
      "edits w4 = edits w3" "saves w4 = saves w3"
    and h4: "headId (store w4) = Some sid"
    unfolding R by blast
  let ?wf = "setStatus E sid Completed (say E sid Agent couldNotSignOff w4)"
  have unf: "run E parse chat choice applied doc diag w = ?wf"
    unfolding run_def Let_def title_def[symmetric] md_def[symmetric] split_beta
      cs_def[symmetric] sid_def[symmetric] w1_def[symmetric] l2_def[symmetric]
      w2_def[symmetric] l3_def[symmetric] w3_def[symmetric] R_def[symmetric]
    by (simp only: rb prod.case sum.case fst_conv snd_conv)
  from h4 obtain s0 where s0: "headSession (store w4) = Some s0" "s_id s0 = sid"
    by (auto simp: headId_def)
  from say_head[OF s0, of Agent couldNotSignOff E] obtain stored t where
    st: "m_role stored = Agent" "m_content stored = couldNotSignOff"
    and s1: "headSession (store (say E sid Agent couldNotSignOff w4))
          = Some (s0\<lparr>s_messages := s_messages s0 @ [stored], s_updatedAt := t\<rparr>)"
    by blast
  have id1: "s_id (s0\<lparr>s_messages := s_messages s0 @ [stored], s_updatedAt := t\<rparr>) = sid"
    using s0 by simp
  from setStatus_head[OF s1 id1, of E Completed] obtain t' where
    s2: "headSession (store ?wf)
          = Some (s0\<lparr>s_messages := s_messages s0 @ [stored], s_updatedAt := t\<rparr>
                   \<lparr>s_status := Completed, s_updatedAt := t'\<rparr>)"
    by blast
  have fin: "\<exists>s. headSession (store ?wf) = Some s
              \<and> s_status s = Completed
              \<and> s_messages s \<noteq> []
              \<and> m_role (last (s_messages s)) = Agent
              \<and> m_content (last (s_messages s)) = couldNotSignOff"
    unfolding s2 using st by simp
  have cnt: "proposeCalls (requests ?wf) = proposeCalls (requests w) + 1"
    "reviewCalls (requests ?wf) = reviewCalls (requests w) + 1"
    "edits ?wf = edits w" "saves ?wf = saves w"
    using c f3 by simp_all
  show ?thesis unfolding unf using cnt fin by blast
qed

text \<open>
  The loop itself, given the bound 3 that the closing message names, runs three
  propose and three review calls before it gives up.
\<close>

lemma three_attempts_run_three_cycles:
  assumes "alwaysProposes (chatOf R)" and "alwaysRejects (jsonOf R) (chatOf R)"
    and "headId (store w) = Some (sessionIdOf R)"
  shows "\<exists>pr appr w'. attemptLoop R 3 0 [] None None w = (Inr (Some pr, Some appr), w')
       \<and> a_decision appr = Reject
       \<and> proposeCalls (requests w') = proposeCalls (requests w) + 3
       \<and> reviewCalls (requests w') = reviewCalls (requests w) + 3
       \<and> edits w' = edits w"
  using attemptLoop_rejected[OF assms, of 0 3 "[]" None None] by auto

theorem rejected_fix_run_single_cycle_witness:
  "alwaysProposes rejectingChat \<and> alwaysRejects jsonParse rejectingChat
   \<and> proposeCalls (requests (run exampleEnv jsonParse rejectingChat (Some APPLY_ACTION) True
                               exampleDocument exampleDiagnostic exampleWorld)) = 1
   \<and> reviewCalls (requests (run exampleEnv jsonParse rejectingChat (Some APPLY_ACTION) True
                               exampleDocument exampleDiagnostic exampleWorld)) = 1
   \<and> edits (run exampleEnv jsonParse rejectingChat (Some APPLY_ACTION) True
               exampleDocument exampleDiagnostic exampleWorld) = []"
proof -
  have a: "proposedReplacement
             (streamedText [OnToken ''safe'', OnToken ''Call()'', OnComplete ''safeCall()'']) \<noteq> []"
    by code_simp
  have b: \<open>a_decision (parseApprovalResponse jsonParse
             ''{"decision":"reject","notes":"still unsafe"}'') = Reject\<close>
    by code_simp
  have P: "alwaysProposes rejectingChat"
    using a by (simp add: alwaysProposes_def rejectingChat_def tokenCallbacks_def)
  have Rj: "alwaysRejects jsonParse rejectingChat"
    using b by (simp add: alwaysRejects_def rejectingChat_def noCallbacks_def)
  have e: "requests exampleWorld = []" "edits exampleWorld = []"
    by (simp_all add: exampleWorld_def)
  from rejected_fix_run_single_cycle[OF P Rj, of exampleEnv "Some APPLY_ACTION" True
         exampleDocument exampleDiagnostic exampleWorld] P Rj e
  show ?thesis by (simp add: proposeCalls_def reviewCalls_def)
qed

end
